theory Spec2Isabelle
  imports Main "HOL-Library.Word"
begin

section \<open>JavaScript strings\<close>

text \<open>
  A JavaScript string is a sequence of 16-bit code units. Literals of the source are
  written \<open>js ''...''\<close>.
\<close>

type_synonym js_string = "16 word list"

definition js :: "string \<Rightarrow> js_string" where
  "js s = map of_char s"

abbreviation LF :: "16 word" where "LF \<equiv> 0x0A"
abbreviation CR :: "16 word" where "CR \<equiv> 0x0D"

text \<open>
  \<open>String.prototype.trim\<close> removes the code units of WhiteSpace and LineTerminator
  (ECMA-262: TAB, VT, FF, SP, NBSP, ZWNBSP, the category Zs, LF, CR, LS, PS) from both
  ends.
\<close>

definition isWhiteSpace :: "16 word \<Rightarrow> bool" where
  "isWhiteSpace c \<longleftrightarrow>
     c \<in> {0x09, 0x0A, 0x0B, 0x0C, 0x0D, 0x20, 0xA0, 0x1680, 0x2028, 0x2029,
          0x202F, 0x205F, 0x3000, 0xFEFF}
     \<or> (0x2000 \<le> c \<and> c \<le> 0x200A)"

definition trim :: "js_string \<Rightarrow> js_string" where
  "trim s = rev (dropWhile isWhiteSpace (rev (dropWhile isWhiteSpace s)))"

text \<open>
  \<open>s.split(/\r?\n/)\<close>: the string is scanned from the left; at each position the
  pattern matches either CR LF or a lone LF, the piece collected so far is closed and
  scanning resumes after the match. The empty string yields one empty piece.
\<close>

fun split_newline :: "js_string \<Rightarrow> js_string list" where
  "split_newline [] = [[]]"
| "split_newline (c # cs) =
     (if c = LF then [] # split_newline cs
      else if c = CR \<and> cs \<noteq> [] \<and> hd cs = LF then [] # split_newline (tl cs)
      else (case split_newline cs of
              [] \<Rightarrow> [[c]]
            | p # ps \<Rightarrow> (c # p) # ps))"

text \<open>
  \<open>String.prototype.toUpperCase\<close>. On a string of ASCII code units it maps a..z to
  A..Z; for any other string the result is fixed by the Unicode case tables of the
  runtime, which are taken as the parameter \<open>unicode_upper\<close>.
\<close>

definition ascii_upper :: "16 word \<Rightarrow> 16 word" where
  "ascii_upper c = (if 0x61 \<le> c \<and> c \<le> 0x7A then c - 0x20 else c)"

definition toUpperCase :: "(js_string \<Rightarrow> js_string) \<Rightarrow> js_string \<Rightarrow> js_string" where
  "toUpperCase unicode_upper s =
     (if list_all (\<lambda>c. c < 0x80) s then map ascii_upper s else unicode_upper s)"

text \<open>
  A Number is an IEEE double. \<open>Integer i\<close> is an integer value (the two zeros are both
  \<open>Integer 0\<close>: they test and print alike), \<open>Fraction m k\<close> the value \<open>m / 2^k\<close> of a
  finite double that is not an integer, \<open>Infinity negative\<close> an infinity with its sign,
  and \<open>NaN\<close> the value that is not a number. The falsy numbers are 0 and \<open>NaN\<close>.
\<close>

datatype js_number =
    Integer int
  | Fraction int nat
  | Infinity bool
  | NaN

fun falsy_number :: "js_number \<Rightarrow> bool" where
  "falsy_number (Integer i) = (i = 0)"
| "falsy_number (Fraction m k) = (m = 0)"
| "falsy_number (Infinity negative) = False"
| "falsy_number NaN = True"

text \<open>The decimal digits of an integer, with a minus sign for a negative one.\<close>

fun nat_to_string :: "nat \<Rightarrow> js_string" where
  "nat_to_string n =
     (if n < 10 then [of_nat (48 + n)]
      else nat_to_string (n div 10) @ [of_nat (48 + n mod 10)])"

declare nat_to_string.simps [simp del]

definition integer_to_string :: "int \<Rightarrow> js_string" where
  "integer_to_string i =
     (if i < 0 then js ''-'' @ nat_to_string (nat (- i)) else nat_to_string (nat i))"

text \<open>
  Number-to-string conversion, as a template literal applies it. An integer below
  \<open>2^53\<close> in absolute value is printed with all its decimal digits, the infinities and
  \<open>NaN\<close> by their names. For every other value (a fraction, or an integer from \<open>2^53\<close>
  on, of which only the digits that identify the double are printed, in exponent
  notation from \<open>10^21\<close> on) the result is the runtime's, the parameter
  \<open>runtime_toString\<close>.
\<close>

definition number_to_string :: "(js_number \<Rightarrow> js_string) \<Rightarrow> js_number \<Rightarrow> js_string" where
  "number_to_string runtime_toString n =
     (case n of
        Integer i \<Rightarrow> if \<bar>i\<bar> < 2 ^ 53 then integer_to_string i else runtime_toString n
      | Fraction m k \<Rightarrow> runtime_toString n
      | Infinity negative \<Rightarrow> if negative then js ''-Infinity'' else js ''Infinity''
      | NaN \<Rightarrow> js ''NaN'')"

section \<open>\<open>path.posix.join\<close>\<close>

fun split_on :: "'a \<Rightarrow> 'a list \<Rightarrow> 'a list list" where
  "split_on sep [] = [[]]"
| "split_on sep (c # cs) =
     (if c = sep then [] # split_on sep cs
      else (case split_on sep cs of
              [] \<Rightarrow> [[c]]
            | p # ps \<Rightarrow> (c # p) # ps))"

fun join_with :: "'a list \<Rightarrow> 'a list list \<Rightarrow> 'a list" where
  "join_with sep [] = []"
| "join_with sep [x] = x"
| "join_with sep (x # y # ys) = x @ sep @ join_with sep (y # ys)"

text \<open>
  \<open>normalizeString\<close> of Node's \<open>path\<close> module, segment by segment: empty segments and
  \<open>.\<close> are dropped, \<open>..\<close> removes the segment before it, or is kept when there is none
  to remove and the path is relative.
\<close>

fun normalizeString :: "bool \<Rightarrow> js_string list \<Rightarrow> js_string list \<Rightarrow> js_string list" where
  "normalizeString allowAboveRoot [] res = res"
| "normalizeString allowAboveRoot (seg # segs) res =
     (if seg = [] \<or> seg = js ''.'' then normalizeString allowAboveRoot segs res
      else if seg = js ''..'' then
        (if res \<noteq> [] \<and> last res \<noteq> js ''..''
           then normalizeString allowAboveRoot segs (butlast res)
         else if allowAboveRoot
           then normalizeString allowAboveRoot segs (res @ [js ''..''])
         else normalizeString allowAboveRoot segs res)
      else normalizeString allowAboveRoot segs (res @ [seg]))"

definition posix_normalize :: "js_string \<Rightarrow> js_string" where
  "posix_normalize path =
     (if path = [] then js ''.''
      else
        let isAbsolute = (hd path = 0x2F);
            trailingSeparator = (last path = 0x2F);
            p = join_with (js ''/'') (normalizeString (\<not> isAbsolute) (split_on 0x2F path) [])
        in if p = [] then
             (if isAbsolute then js ''/'' else if trailingSeparator then js ''./'' else js ''.'')
           else (if isAbsolute then js ''/'' else []) @ p
                @ (if trailingSeparator then js ''/'' else []))"

definition posix_join :: "js_string list \<Rightarrow> js_string" where
  "posix_join args =
     (let parts = filter (\<lambda>arg. arg \<noteq> []) args
      in if parts = [] then js ''.'' else posix_normalize (join_with (js ''/'') parts))"

section \<open>The file system\<close>

datatype fs_node = Directory | RegularFile js_string | UnreadableFile

datatype fs_op = ExistsSync js_string | ReadFileSync js_string | CreateWriteStream js_string

datatype js_error = Error js_string | ErrnoException string js_string

text \<open>
  \<open>files\<close> is what the operating system finds at a path; \<open>trace\<close> records the calls
  made to the \<open>fs\<close> module, in order.
\<close>

record world =
  files :: "js_string \<rightharpoonup> fs_node"
  trace :: "fs_op list"

definition existsSync :: "world \<Rightarrow> js_string \<Rightarrow> bool \<times> world" where
  "existsSync w p = (files w p \<noteq> None, w\<lparr>trace := trace w @ [ExistsSync p]\<rparr>)"

definition readFileSync :: "world \<Rightarrow> js_string \<Rightarrow> (js_error + js_string) \<times> world" where
  "readFileSync w p =
     ((case files w p of
         None \<Rightarrow> Inl (ErrnoException ''ENOENT'' p)
       | Some Directory \<Rightarrow> Inl (ErrnoException ''EISDIR'' p)
       | Some UnreadableFile \<Rightarrow> Inl (ErrnoException ''EACCES'' p)
       | Some (RegularFile s) \<Rightarrow> Inr s),
      w\<lparr>trace := trace w @ [ReadFileSync p]\<rparr>)"

text \<open>
  \<open>fs.createWriteStream\<close> returns at once; the file is opened and written later, by
  the stream. The call itself is what the trace records.
\<close>

definition createWriteStream :: "world \<Rightarrow> js_string \<Rightarrow> world" where
  "createWriteStream w p = w\<lparr>trace := trace w @ [CreateWriteStream p]\<rparr>"

section \<open>\<open>getGcloudIgnores\<close>\<close>

definition getGcloudIgnores :: "world \<Rightarrow> js_string \<Rightarrow> (js_error + js_string list) \<times> world" where
  "getGcloudIgnores w dir =
     (let gcloudIgnorePath = posix_join [dir, js ''.gcloudignore''];
          (found, w1) = existsSync w gcloudIgnorePath
      in if \<not> found then (Inr [], w1)
         else
           (case readFileSync w1 gcloudIgnorePath of
              (Inl err, w2) \<Rightarrow> (Inl err, w2)
            | (Inr s, w2) \<Rightarrow> (Inr (map trim (split_newline s)), w2)))"

section \<open>\<open>formatEntry\<close>\<close>

text \<open>
  \<open>Archiver.EntryData\<close> with the fields the code reads (\<open>name\<close> is required, \<open>mode\<close>
  optional), and its extension \<open>RealEntryData\<close>.
\<close>

record EntryData =
  name :: js_string
  mode :: "js_number option"

record RealEntryData = EntryData +
  sourcePath :: "js_string option"
  type :: "js_string option"

text \<open>\<open>x || d\<close> for an optional string: \<open>undefined\<close> and the empty string are falsy.\<close>

definition string_or :: "js_string option \<Rightarrow> js_string \<Rightarrow> js_string" where
  "string_or x d = (case x of None \<Rightarrow> d | Some s \<Rightarrow> if s = [] then d else s)"

text \<open>\<open>entry.mode || '000'\<close>, as the template literal renders it.\<close>

definition mode_or :: "(js_number \<Rightarrow> js_string) \<Rightarrow> js_number option \<Rightarrow> js_string \<Rightarrow> js_string" where
  "mode_or runtime_toString x d =
     (case x of
        None \<Rightarrow> d
      | Some m \<Rightarrow> if falsy_number m then d else number_to_string runtime_toString m)"

text \<open>\<open>s[0]\<close> inside a template literal: \<open>undefined\<close> is rendered as its name.\<close>

definition char_at_0 :: "js_string \<Rightarrow> js_string" where
  "char_at_0 s = (case s of [] \<Rightarrow> js ''undefined'' | c # _ \<Rightarrow> [c])"

text \<open>
  \<open>formatEntry\<close>. The two parameters are the runtime's: its upper-casing of strings
  that are not ASCII, and its printing of the numbers that are not small integers.
\<close>

definition formatEntry ::
  "(js_string \<Rightarrow> js_string) \<Rightarrow> (js_number \<Rightarrow> js_string) \<Rightarrow> RealEntryData \<Rightarrow> js_string" where
  "formatEntry unicode_upper runtime_toString entry =
     (let name' = name entry;
          mode' = mode_or runtime_toString (mode entry) (js ''000'');
          sourcePath' = string_or (sourcePath entry) (js ''unknown'');
          type' = char_at_0 (toUpperCase unicode_upper (string_or (type entry) (js ''unknown'')))
      in js ''['' @ type' @ js ''] ('' @ mode' @ js '') '' @ name' @ js '' => '' @ sourcePath')"

section \<open>\<open>zipDir\<close>\<close>

datatype promise = Pending | Resolved js_string | Rejected js_error

text \<open>A promise settles once; later calls of \<open>resolve\<close> and \<open>reject\<close> do nothing.\<close>

fun resolve :: "promise \<Rightarrow> js_string \<Rightarrow> promise" where
  "resolve Pending v = Resolved v"
| "resolve p v = p"

fun reject :: "promise \<Rightarrow> js_error \<Rightarrow> promise" where
  "reject Pending err = Rejected err"
| "reject p err = p"

text \<open>
  The events the archive writer and the output stream emit after the listeners are
  registered; which events arrive, and in which order, is decided by those libraries.
\<close>

datatype event =
    EntryEvent EntryData
  | WarningEvent js_error
  | ErrorEvent js_error
  | FinishEvent

text \<open>
  The caller's \<open>onZipEntry\<close> returns nothing; what it does is a change of the caller's
  own state \<open>'c\<close>.
\<close>

record 'c ZipOptions =
  onZipEntry :: "(EntryData \<Rightarrow> 'c \<Rightarrow> 'c) option"

text \<open>The four listeners of lines 59 to 67.\<close>

fun on_event :: "'c ZipOptions option \<Rightarrow> js_string \<Rightarrow> promise \<times> 'c \<Rightarrow> event \<Rightarrow> promise \<times> 'c" where
  "on_event opts outputPath (p, c) (EntryEvent entry) =
     (case opts of
        None \<Rightarrow> (p, c)
      | Some os \<Rightarrow> (case onZipEntry os of None \<Rightarrow> (p, c) | Some f \<Rightarrow> (p, f entry c)))"
| "on_event opts outputPath (p, c) (WarningEvent err) = (reject p err, c)"
| "on_event opts outputPath (p, c) (ErrorEvent err) = (reject p err, c)"
| "on_event opts outputPath (p, c) FinishEvent = (resolve p outputPath, c)"

text \<open>
  The filter of lines 76 to 80. \<open>ignores rules n\<close> stands for
  \<open>ignore().add(rules).ignores(n)\<close> of the package \<open>ignore\<close>.
\<close>

definition gIgnoreF :: "(js_string list \<Rightarrow> js_string \<Rightarrow> bool) \<Rightarrow> js_string list \<Rightarrow> EntryData \<Rightarrow> EntryData option" where
  "gIgnoreF ignores rules file = (if \<not> ignores rules (name file) then Some file else None)"

text \<open>Lines 73 to 81: the rules are loaded, and loaded again when there are any.\<close>

definition select_filter ::
  "(js_string list \<Rightarrow> js_string \<Rightarrow> bool) \<Rightarrow> world \<Rightarrow> js_string
     \<Rightarrow> (js_error + (EntryData \<Rightarrow> EntryData option) option) \<times> world" where
  "select_filter ignores w dirPath =
     (case getGcloudIgnores w dirPath of
        (Inl err, w1) \<Rightarrow> (Inl err, w1)
      | (Inr rules, w1) \<Rightarrow>
          if length rules > 0 then
            (case getGcloudIgnores w1 dirPath of
               (Inl err, w2) \<Rightarrow> (Inl err, w2)
             | (Inr rules', w2) \<Rightarrow> (Inr (Some (gIgnoreF ignores rules')), w2))
          else (Inr None, w1))"

text \<open>
  \<open>archive.directory(dirPath, false, data)\<close>: of the entries \<open>walk\<close> that the traversal
  of the directory finds, named relative to it, those for which \<open>data\<close> returns
  \<open>false\<close> are skipped; without \<open>data\<close> all are appended.
\<close>

definition archive_directory :: "(EntryData \<Rightarrow> EntryData option) option \<Rightarrow> EntryData list \<Rightarrow> EntryData list" where
  "archive_directory data walk = (case data of None \<Rightarrow> walk | Some f \<Rightarrow> List.map_filter f walk)"

record 'c zip_run =
  settled :: promise
  data_fn :: "(EntryData \<Rightarrow> EntryData option) option"
  appended :: "EntryData list"
  finalized :: bool
  observed :: 'c

text \<open>
  \<open>zipDir\<close>. The result is \<open>Inl err\<close> when the call throws before it returns, and
  \<open>Inr run\<close> when it returns a promise: \<open>settled run\<close> is the state of that promise
  once the events \<open>evs\<close> have been delivered. An exception thrown inside the executor
  of \<open>new Promise\<close> rejects the promise.
\<close>

definition zipDir ::
  "(js_string list \<Rightarrow> js_string \<Rightarrow> bool) \<Rightarrow> world \<Rightarrow> js_string \<Rightarrow> js_string
     \<Rightarrow> 'c ZipOptions option \<Rightarrow> 'c \<Rightarrow> EntryData list \<Rightarrow> event list
     \<Rightarrow> (js_error + 'c zip_run) \<times> world" where
  "zipDir ignores w dirPath outputPath opts c0 walk evs =
     (let (found, w1) = existsSync w dirPath
      in if \<not> found then (Inl (Error (js ''Unable to find '' @ dirPath)), w1)
         else
           let w2 = createWriteStream w1 outputPath
           in (case select_filter ignores w2 dirPath of
                 (Inl err, w3) \<Rightarrow>
                   let (p, c) = foldl (on_event opts outputPath) (Rejected err, c0) evs
                   in (Inr \<lparr>settled = p, data_fn = None, appended = [],
                            finalized = False, observed = c\<rparr>, w3)
               | (Inr gIgnoreF', w3) \<Rightarrow>
                   let (p, c) = foldl (on_event opts outputPath) (Pending, c0) evs
                   in (Inr \<lparr>settled = p, data_fn = gIgnoreF',
                            appended = archive_directory gIgnoreF' walk,
                            finalized = True, observed = c\<rparr>, w3)))"

section \<open>A matcher to run the filter on\<close>

text \<open>
  Modelled from the spec: the gitignore matcher is the package \<open>ignore\<close>, which is not
  part of the sources. \<open>ignores_basic\<close> is a matcher for the patterns of the examples
  only, not the whole of gitignore: blank lines and comments are skipped, \<open>*\<close> matches
  within one path segment, a pattern is compared with the last segment of the name, a
  rule starting with \<open>!\<close> re-includes, and the last rule that matches decides.
  Directory-only and anchored patterns and case folding are not covered. The theorems
  about \<open>zipDir\<close> hold for every matcher; this one only serves to run examples.
\<close>

fun glob_match :: "js_string \<Rightarrow> js_string \<Rightarrow> bool" where
  "glob_match [] [] = True"
| "glob_match [] (c # cs) = False"
| "glob_match (p # ps) [] = (p = 0x2A \<and> glob_match ps [])"
| "glob_match (p # ps) (c # cs) =
     (if p = 0x2A then glob_match ps (c # cs) \<or> (c \<noteq> 0x2F \<and> glob_match (p # ps) cs)
      else p = c \<and> glob_match ps cs)"

definition apply_rule :: "js_string \<Rightarrow> bool \<Rightarrow> js_string \<Rightarrow> bool" where
  "apply_rule n ignored rule =
     (if rule = [] \<or> hd rule = 0x23 then ignored
      else if hd rule = 0x21 then (if glob_match (tl rule) (last (split_on 0x2F n)) then False else ignored)
      else (if glob_match rule (last (split_on 0x2F n)) then True else ignored))"

definition ignores_basic :: "js_string list \<Rightarrow> js_string \<Rightarrow> bool" where
  "ignores_basic rules n = foldl (apply_rule n) False rules"

section \<open>Reference definitions\<close>

text \<open>
  The lines of a text as the specification describes them: the text is cut at every
  line feed, and a carriage return right before the line feed belongs to the line
  break, not to the line.
\<close>

definition drop_cr :: "js_string \<Rightarrow> js_string" where
  "drop_cr t = (if t \<noteq> [] \<and> last t = CR then butlast t else t)"

function lines_by_newline :: "js_string \<Rightarrow> js_string list" where
  "lines_by_newline s =
     (if LF \<in> set s
      then drop_cr (takeWhile (\<lambda>c. c \<noteq> LF) s) # lines_by_newline (tl (dropWhile (\<lambda>c. c \<noteq> LF) s))
      else [s])"
  by pat_completeness auto
termination
proof (relation "measure length")
  show "wf (measure length)" by simp
next
  fix s :: js_string
  assume "LF \<in> set s"
  then have "dropWhile (\<lambda>c. c \<noteq> LF) s \<noteq> []" by simp
  then have "length (tl (dropWhile (\<lambda>c. c \<noteq> LF) s)) < length (dropWhile (\<lambda>c. c \<noteq> LF) s)"
    by simp
  also have "\<dots> \<le> length s" by (rule length_dropWhile_le)
  finally show "(tl (dropWhile (\<lambda>c. c \<noteq> LF) s), s) \<in> measure length" by simp
qed

declare lines_by_newline.simps [simp del]

text \<open>The path of the ignore file of a directory.\<close>

abbreviation ignore_path :: "js_string \<Rightarrow> js_string" where
  "ignore_path dir \<equiv> posix_join [dir, js ''.gcloudignore'']"

text \<open>The events that settle a pending promise.\<close>

fun is_terminal :: "event \<Rightarrow> bool" where
  "is_terminal (EntryEvent entry) = False"
| "is_terminal ev = True"

text \<open>A run of events in which every warning is reported as an error instead.\<close>

fun warnings_as_errors :: "event \<Rightarrow> event" where
  "warnings_as_errors (WarningEvent err) = ErrorEvent err"
| "warnings_as_errors ev = ev"

text \<open>The calls to \<open>fs\<close> made between two states of the world, and those that read a file.\<close>

fun is_read :: "fs_op \<Rightarrow> bool" where
  "is_read (ReadFileSync p) = True"
| "is_read opn = False"

definition ops_since :: "world \<Rightarrow> world \<Rightarrow> fs_op list" where
  "ops_since w w' = drop (length (trace w)) (trace w')"

section \<open>Example inputs\<close>

definition world_bare :: world where
  "world_bare = \<lparr>files = [js ''/tmp/fn'' \<mapsto> Directory], trace = []\<rparr>"

definition world_crlf :: world where
  "world_crlf =
     \<lparr>files = [js ''/tmp/fn'' \<mapsto> Directory,
               js ''/tmp/fn/.gcloudignore'' \<mapsto>
                 RegularFile (js ''*.log '' @ [CR, LF] @ js ''!keep.log'' @ [LF])],
      trace = []\<rparr>"

definition world_fn :: world where
  "world_fn =
     \<lparr>files = [js ''/tmp/fn'' \<mapsto> Directory,
               js ''/tmp/fn/.gcloudignore'' \<mapsto> RegularFile (js ''*.log'' @ [LF] @ js ''!keep.log'')],
      trace = []\<rparr>"

definition world_unreadable :: world where
  "world_unreadable =
     \<lparr>files = [js ''/tmp/fn'' \<mapsto> Directory, js ''/tmp/fn/.gcloudignore'' \<mapsto> UnreadableFile],
      trace = []\<rparr>"

definition world_blank :: world where
  "world_blank =
     \<lparr>files = [js ''/tmp/fn'' \<mapsto> Directory,
               js ''/tmp/fn/.gcloudignore'' \<mapsto> RegularFile ([0x20, LF, 0x09, CR, LF])],
      trace = []\<rparr>"

definition entry_named :: "string \<Rightarrow> EntryData" where
  "entry_named n = \<lparr>name = js n, mode = None\<rparr>"

definition entry_full :: RealEntryData where
  "entry_full = \<lparr>name = js ''index.js'', mode = Some (Integer 420),
                  sourcePath = Some (js ''/tmp/fn/index.js''), type = Some (js ''file'')\<rparr>"

definition entry_bare :: RealEntryData where
  "entry_bare = \<lparr>name = js ''index.js'', mode = None, sourcePath = None, type = None\<rparr>"

definition entry_zero :: RealEntryData where
  "entry_zero = \<lparr>name = js ''index.js'', mode = Some (Integer 0),
                  sourcePath = Some [], type = Some []\<rparr>"

definition entry_two_lines :: RealEntryData where
  "entry_two_lines = \<lparr>name = js ''a'' @ [LF] @ js ''b'', mode = None,
                       sourcePath = None, type = None\<rparr>"

text \<open>A runtime that prints nothing for the numbers left to it; the examples have none.\<close>

definition no_toString :: "js_number \<Rightarrow> js_string" where
  "no_toString n = []"

section \<open>Line splitting\<close>

lemma split_newline_nonempty: "split_newline s \<noteq> []"
  by (induction s rule: split_newline.induct) (auto split: list.splits)

lemma lines_by_newline_Nil: "lines_by_newline [] = [[]]"
  by (subst lines_by_newline.simps) simp

lemma lines_by_newline_LF: "lines_by_newline (LF # cs) = [] # lines_by_newline cs"
  by (subst lines_by_newline.simps) (simp add: drop_cr_def)

lemma lines_by_newline_CRLF: "lines_by_newline (CR # LF # cs) = [] # lines_by_newline cs"
  by (subst lines_by_newline.simps) (simp add: drop_cr_def)

lemma lines_by_newline_other:
  assumes "c \<noteq> LF" and "\<not> (c = CR \<and> cs \<noteq> [] \<and> hd cs = LF)"
  shows "lines_by_newline (c # cs) =
           (c # hd (lines_by_newline cs)) # tl (lines_by_newline cs)"
proof (cases "LF \<in> set cs")
  case False
  with assms show ?thesis
    by (subst lines_by_newline.simps, subst (2 3) lines_by_newline.simps) simp
next
  case True
  let ?t = "takeWhile (\<lambda>c. c \<noteq> LF) cs"
  have "drop_cr (c # ?t) = c # drop_cr ?t"
  proof (cases "?t = []")
    case True
    then have "cs \<noteq> [] \<and> hd cs = LF" using \<open>LF \<in> set cs\<close>
      by (cases cs) (auto split: if_splits)
    with assms have "c \<noteq> CR" by auto
    with True show ?thesis by (simp add: drop_cr_def)
  next
    case False
    then show ?thesis by (simp add: drop_cr_def)
  qed
  with True assms show ?thesis
    by (subst lines_by_newline.simps, subst (2 3) lines_by_newline.simps) simp
qed

lemma split_newline_eq_lines: "split_newline s = lines_by_newline s"
proof (induction s rule: split_newline.induct)
  case 1
  show ?case by (simp add: lines_by_newline_Nil)
next
  case (2 c cs)
  show ?case
  proof (cases "c = LF")
    case True
    with 2 show ?thesis by (simp add: lines_by_newline_LF)
  next
    case nlf: False
    show ?thesis
    proof (cases "c = CR \<and> cs \<noteq> [] \<and> hd cs = LF")
      case True
      then obtain rest where cs: "cs = LF # rest" by (cases cs) auto
      with True nlf 2 show ?thesis by (simp add: lines_by_newline_CRLF)
    next
      case False
      with nlf 2 have IH: "split_newline cs = lines_by_newline cs" by simp
      have ne: "split_newline cs \<noteq> []" by (rule split_newline_nonempty)
      from False nlf have "split_newline (c # cs) = (c # hd (split_newline cs)) # tl (split_newline cs)"
        using ne by (cases "split_newline cs") auto
      also have "\<dots> = lines_by_newline (c # cs)"
        using lines_by_newline_other [OF nlf False] IH by simp
      finally show ?thesis .
    qed
  qed
qed

section \<open>Loading the ignore rules\<close>

lemma getGcloudIgnores_absent:
  assumes "files w (posix_join [dir, js ''.gcloudignore'']) = None"
  shows "getGcloudIgnores w dir =
           (Inr [], w\<lparr>trace := trace w @ [ExistsSync (posix_join [dir, js ''.gcloudignore''])]\<rparr>)"
  using assms by (simp add: getGcloudIgnores_def existsSync_def Let_def)

lemma getGcloudIgnores_regular:
  assumes "files w (posix_join [dir, js ''.gcloudignore'']) = Some (RegularFile s)"
  shows "getGcloudIgnores w dir =
           (Inr (map trim (split_newline s)),
            w\<lparr>trace := trace w @ [ExistsSync (posix_join [dir, js ''.gcloudignore'']),
                                  ReadFileSync (posix_join [dir, js ''.gcloudignore''])]\<rparr>)"
  using assms by (simp add: getGcloudIgnores_def existsSync_def readFileSync_def Let_def)

lemma getGcloudIgnores_failing:
  assumes "files w (posix_join [dir, js ''.gcloudignore'']) = Some nd" and "\<forall>s. nd \<noteq> RegularFile s"
  shows "\<exists>err. getGcloudIgnores w dir =
           (Inl err,
            w\<lparr>trace := trace w @ [ExistsSync (posix_join [dir, js ''.gcloudignore'']),
                                  ReadFileSync (posix_join [dir, js ''.gcloudignore''])]\<rparr>)"
  using assms by (cases nd) (simp_all add: getGcloudIgnores_def existsSync_def readFileSync_def Let_def)

lemma posix_join_fn: "posix_join [js ''/tmp/fn'', js ''.gcloudignore''] = js ''/tmp/fn/.gcloudignore''"
  by (simp add: posix_join_def posix_normalize_def js_def Let_def)

lemma lines_crlf:
  "map trim (lines_by_newline (js ''*.log '' @ [CR, LF] @ js ''!keep.log'' @ [LF]))
     = [js ''*.log'', js ''!keep.log'', []]"
  unfolding split_newline_eq_lines [symmetric]
  by (simp add: js_def trim_def isWhiteSpace_def)

text \<open>
  C5: \<open>getGcloudIgnores\<close> returns the lines of the file \<open>.gcloudignore\<close> at the root of
  the directory, in their order, each trimmed; when that file does not exist the result
  is the empty list, returned as a success.
\<close>

theorem getGcloudIgnores_lines:
  "(files w (ignore_path dir) = None \<longrightarrow> fst (getGcloudIgnores w dir) = Inr [])
   \<and> (\<forall>s. files w (ignore_path dir) = Some (RegularFile s)
          \<longrightarrow> fst (getGcloudIgnores w dir) = Inr (map trim (lines_by_newline s)))"
  by (simp add: getGcloudIgnores_absent getGcloudIgnores_regular split_newline_eq_lines)

theorem getGcloudIgnores_lines_witness:
  "fst (getGcloudIgnores world_bare (js ''/tmp/fn'')) = Inr []
   \<and> fst (getGcloudIgnores world_crlf (js ''/tmp/fn'')) = Inr [js ''*.log'', js ''!keep.log'', []]"
proof -
  have a: "files world_bare (ignore_path (js ''/tmp/fn'')) = None"
    unfolding posix_join_fn by (simp add: world_bare_def js_def)
  have b: "files world_crlf (ignore_path (js ''/tmp/fn''))
             = Some (RegularFile (js ''*.log '' @ [CR, LF] @ js ''!keep.log'' @ [LF]))"
    unfolding posix_join_fn by (simp add: world_crlf_def)
  from getGcloudIgnores_lines [of world_bare "js ''/tmp/fn''"] a
  have "fst (getGcloudIgnores world_bare (js ''/tmp/fn'')) = Inr []" by blast
  moreover from getGcloudIgnores_lines [of world_crlf "js ''/tmp/fn''"] b
  have "fst (getGcloudIgnores world_crlf (js ''/tmp/fn'')) =
          Inr (map trim (lines_by_newline (js ''*.log '' @ [CR, LF] @ js ''!keep.log'' @ [LF])))"
    by blast
  ultimately show ?thesis by (simp only: lines_crlf simp_thms)
qed

section \<open>Delivering events\<close>

lemma on_event_entry:
  "\<exists>c'. on_event opts out (p, c) (EntryEvent entry) = (p, c')"
  by (simp split: option.splits)

lemma deliver_settled:
  "p \<noteq> Pending \<Longrightarrow> fst (foldl (on_event opts out) (p, c) evs) = p"
proof (induction evs arbitrary: c)
  case Nil
  show ?case by simp
next
  case (Cons ev evs)
  obtain p' c' where step: "on_event opts out (p, c) ev = (p', c')" by (cases "on_event opts out (p, c) ev")
  with Cons.prems have "p' = p"
    by (cases ev; cases p) (auto split: option.splits)
  with Cons step show ?case by simp
qed

lemma deliver_entries:
  "\<forall>ev \<in> set evs. \<not> is_terminal ev \<Longrightarrow> fst (foldl (on_event opts out) (p, c) evs) = p"
proof (induction evs arbitrary: c)
  case Nil
  show ?case by simp
next
  case (Cons ev evs)
  from Cons.prems obtain entry where ev: "ev = EntryEvent entry" by (cases ev) auto
  obtain c' where step: "on_event opts out (p, c) ev = (p, c')"
    unfolding ev using on_event_entry [of opts out p c entry] by auto
  with Cons show ?case by simp
qed

lemma deliver_resolved:
  "fst (foldl (on_event opts out) (Pending, c) evs) = Resolved v \<Longrightarrow> v = out \<and> FinishEvent \<in> set evs"
proof (induction evs arbitrary: c)
  case Nil
  then show ?case by simp
next
  case (Cons ev evs)
  show ?case
  proof (cases ev)
    case (EntryEvent entry)
    obtain c' where "on_event opts out (Pending, c) ev = (Pending, c')"
      unfolding EntryEvent using on_event_entry [of opts out Pending c entry] by auto
    with Cons show ?thesis by auto
  next
    case (WarningEvent err)
    with Cons.prems show ?thesis by (simp add: deliver_settled)
  next
    case (ErrorEvent err)
    with Cons.prems show ?thesis by (simp add: deliver_settled)
  next
    case FinishEvent
    with Cons.prems show ?thesis by (simp add: deliver_settled)
  qed
qed

lemma deliver_warning:
  assumes "\<forall>e \<in> set pre. \<not> is_terminal e"
  shows "fst (foldl (on_event opts out) (Pending, c) (pre @ WarningEvent err # post)) = Rejected err"
proof -
  obtain c1 where pre: "foldl (on_event opts out) (Pending, c) pre = (Pending, c1)"
    using deliver_entries [OF assms, of opts out Pending c]
    by (cases "foldl (on_event opts out) (Pending, c) pre") simp
  then show ?thesis by (simp add: deliver_settled)
qed

lemma deliver_error:
  assumes "\<forall>e \<in> set pre. \<not> is_terminal e"
  shows "fst (foldl (on_event opts out) (Pending, c) (pre @ ErrorEvent err # post)) = Rejected err"
proof -
  obtain c1 where pre: "foldl (on_event opts out) (Pending, c) pre = (Pending, c1)"
    using deliver_entries [OF assms, of opts out Pending c]
    by (cases "foldl (on_event opts out) (Pending, c) pre") simp
  then show ?thesis by (simp add: deliver_settled)
qed

lemma deliver_finish:
  assumes "\<forall>e \<in> set pre. \<not> is_terminal e"
  shows "fst (foldl (on_event opts out) (Pending, c) (pre @ FinishEvent # post)) = Resolved out"
proof -
  obtain c1 where pre: "foldl (on_event opts out) (Pending, c) pre = (Pending, c1)"
    using deliver_entries [OF assms, of opts out Pending c]
    by (cases "foldl (on_event opts out) (Pending, c) pre") simp
  then show ?thesis by (simp add: deliver_settled)
qed

lemma on_event_warning_as_error:
  "on_event opts out s (warnings_as_errors ev) = on_event opts out s ev"
  by (cases ev; cases s) simp_all

lemma deliver_warnings_as_errors:
  "foldl (on_event opts out) s (map warnings_as_errors evs) = foldl (on_event opts out) s evs"
  by (induction evs arbitrary: s) (simp_all add: on_event_warning_as_error)

section \<open>The cases of \<open>zipDir\<close>\<close>

lemma select_filter_absent:
  assumes "files w (ignore_path dir) = None"
  shows "select_filter ignores w dir =
           (Inr None, w\<lparr>trace := trace w @ [ExistsSync (ignore_path dir)]\<rparr>)"
  using assms by (simp add: select_filter_def getGcloudIgnores_absent)

lemma select_filter_regular:
  assumes "files w (ignore_path dir) = Some (RegularFile s)"
  shows "select_filter ignores w dir =
           (Inr (Some (gIgnoreF ignores (map trim (split_newline s)))),
            w\<lparr>trace := trace w @ [ExistsSync (ignore_path dir), ReadFileSync (ignore_path dir),
                                  ExistsSync (ignore_path dir), ReadFileSync (ignore_path dir)]\<rparr>)"
proof -
  let ?w1 = "w\<lparr>trace := trace w @ [ExistsSync (ignore_path dir), ReadFileSync (ignore_path dir)]\<rparr>"
  have first: "getGcloudIgnores w dir = (Inr (map trim (split_newline s)), ?w1)"
    using assms by (rule getGcloudIgnores_regular)
  have "files ?w1 (ignore_path dir) = Some (RegularFile s)"
    using assms by simp
  then have second: "getGcloudIgnores ?w1 dir =
      (Inr (map trim (split_newline s)),
       ?w1\<lparr>trace := trace ?w1 @ [ExistsSync (ignore_path dir), ReadFileSync (ignore_path dir)]\<rparr>)"
    by (rule getGcloudIgnores_regular)
  show ?thesis
    by (simp add: select_filter_def first second split_newline_nonempty)
qed

lemma select_filter_failing:
  assumes "files w (ignore_path dir) = Some nd" and "\<forall>s. nd \<noteq> RegularFile s"
  shows "\<exists>err. select_filter ignores w dir =
           (Inl err,
            w\<lparr>trace := trace w @ [ExistsSync (ignore_path dir), ReadFileSync (ignore_path dir)]\<rparr>)"
proof -
  from getGcloudIgnores_failing [OF assms] obtain err where
    "getGcloudIgnores w dir =
       (Inl err, w\<lparr>trace := trace w @ [ExistsSync (ignore_path dir), ReadFileSync (ignore_path dir)]\<rparr>)"
    by blast
  then show ?thesis by (simp add: select_filter_def)
qed

lemma map_filter_gIgnoreF:
  "List.map_filter (gIgnoreF ignores rules) walk = filter (\<lambda>file. \<not> ignores rules (name file)) walk"
  by (induction walk) (simp_all add: map_filter_simps gIgnoreF_def)

lemma zipDir_absent_source:
  assumes "files w dirPath = None"
  shows "zipDir ignores w dirPath outputPath opts c0 walk evs =
           (Inl (Error (js ''Unable to find '' @ dirPath)),
            w\<lparr>trace := trace w @ [ExistsSync dirPath]\<rparr>)"
  using assms by (simp add: zipDir_def existsSync_def)

lemma zipDir_no_ignore_file:
  assumes "files w dirPath \<noteq> None" and "files w (ignore_path dirPath) = None"
  shows "zipDir ignores w dirPath outputPath opts c0 walk evs =
           (Inr \<lparr>settled = fst (foldl (on_event opts outputPath) (Pending, c0) evs),
                 data_fn = None, appended = walk, finalized = True,
                 observed = snd (foldl (on_event opts outputPath) (Pending, c0) evs)\<rparr>,
            w\<lparr>trace := trace w @ [ExistsSync dirPath, CreateWriteStream outputPath,
                                  ExistsSync (ignore_path dirPath)]\<rparr>)"
proof -
  let ?w2 = "w\<lparr>trace := trace w @ [ExistsSync dirPath, CreateWriteStream outputPath]\<rparr>"
  have "files ?w2 (ignore_path dirPath) = None" using assms(2) by simp
  from select_filter_absent [OF this, of ignores]
  show ?thesis using assms(1)
    by (simp add: zipDir_def existsSync_def createWriteStream_def archive_directory_def
        split_beta)
qed

lemma zipDir_ignore_file:
  assumes "files w dirPath \<noteq> None" and "files w (ignore_path dirPath) = Some (RegularFile s)"
  shows "zipDir ignores w dirPath outputPath opts c0 walk evs =
           (Inr \<lparr>settled = fst (foldl (on_event opts outputPath) (Pending, c0) evs),
                 data_fn = Some (gIgnoreF ignores (map trim (split_newline s))),
                 appended = filter (\<lambda>file. \<not> ignores (map trim (split_newline s)) (name file)) walk,
                 finalized = True,
                 observed = snd (foldl (on_event opts outputPath) (Pending, c0) evs)\<rparr>,
            w\<lparr>trace := trace w @ [ExistsSync dirPath, CreateWriteStream outputPath,
                                  ExistsSync (ignore_path dirPath), ReadFileSync (ignore_path dirPath),
                                  ExistsSync (ignore_path dirPath), ReadFileSync (ignore_path dirPath)]\<rparr>)"
proof -
  let ?w2 = "w\<lparr>trace := trace w @ [ExistsSync dirPath, CreateWriteStream outputPath]\<rparr>"
  have "files ?w2 (ignore_path dirPath) = Some (RegularFile s)" using assms(2) by simp
  from select_filter_regular [OF this, of ignores]
  show ?thesis using assms(1)
    by (simp add: zipDir_def existsSync_def createWriteStream_def archive_directory_def
        split_beta map_filter_gIgnoreF)
qed

lemma zipDir_ignore_file_failing:
  assumes "files w dirPath \<noteq> None" and "files w (ignore_path dirPath) = Some nd"
    and "\<forall>s. nd \<noteq> RegularFile s"
  shows "\<exists>err. zipDir ignores w dirPath outputPath opts c0 walk evs =
           (Inr \<lparr>settled = fst (foldl (on_event opts outputPath) (Rejected err, c0) evs),
                 data_fn = None, appended = [], finalized = False,
                 observed = snd (foldl (on_event opts outputPath) (Rejected err, c0) evs)\<rparr>,
            w\<lparr>trace := trace w @ [ExistsSync dirPath, CreateWriteStream outputPath,
                                  ExistsSync (ignore_path dirPath), ReadFileSync (ignore_path dirPath)]\<rparr>)
          \<and> fst (getGcloudIgnores w dirPath) = Inl err"
  using assms
  by (cases nd)
    (simp_all add: zipDir_def existsSync_def createWriteStream_def select_filter_def
      getGcloudIgnores_def readFileSync_def split_beta Let_def)

section \<open>The filter\<close>

text \<open>
  C1: when the loaded rule set is not empty, \<open>zipDir\<close> hands the archive writer a filter
  that keeps an entry exactly when the matcher does not ignore the entry's name, so the
  entries appended are the candidates the matcher does not ignore; when the rule set is
  empty there is no filter and every candidate is appended. The matcher is the one of
  the package \<open>ignore\<close>, a parameter here.
\<close>

theorem zipDir_filter:
  assumes "files w dirPath \<noteq> None" and "fst (getGcloudIgnores w dirPath) = Inr rules"
  shows "\<exists>run. fst (zipDir ignores w dirPath outputPath opts c0 walk evs) = Inr run
     \<and> (rules \<noteq> [] \<longrightarrow>
          (\<exists>f. data_fn run = Some f
             \<and> (\<forall>file. (f file = Some file \<longleftrightarrow> \<not> ignores rules (name file))
                     \<and> (f file = None \<longleftrightarrow> ignores rules (name file))))
          \<and> appended run = filter (\<lambda>file. \<not> ignores rules (name file)) walk)
     \<and> (rules = [] \<longrightarrow> data_fn run = None \<and> appended run = walk)"
proof (cases "files w (ignore_path dirPath)")
  case None
  with assms(2) have "rules = []" by (simp add: getGcloudIgnores_absent)
  then show ?thesis
    by (simp add: zipDir_no_ignore_file [OF assms(1) None])
next
  case (Some nd)
  show ?thesis
  proof (cases "\<exists>s. nd = RegularFile s")
    case True
    then obtain s where nd: "nd = RegularFile s" by blast
    with Some have reg: "files w (ignore_path dirPath) = Some (RegularFile s)" by simp
    with assms(2) have rules: "rules = map trim (split_newline s)"
      by (simp add: getGcloudIgnores_regular)
    then have "rules \<noteq> []" by (simp add: split_newline_nonempty)
    with rules show ?thesis
      by (simp add: zipDir_ignore_file [OF assms(1) reg] gIgnoreF_def)
  next
    case False
    with getGcloudIgnores_failing [OF Some] assms(2) show ?thesis by fastforce
  qed
qed

lemma basic_filter_example: "filter (\<lambda>file. \<not> ignores_basic [js ''*.log'', js ''!keep.log''] (name file))
             [entry_named ''keep.log'', entry_named ''other.log'', entry_named ''src/index.js'', entry_named ''src/debug.log'']
             = [entry_named ''keep.log'', entry_named ''src/index.js'']"
  by (simp add: ignores_basic_def apply_rule_def entry_named_def js_def)

theorem zipDir_filter_witness:
  "(\<exists>run. fst (zipDir ignores_basic world_fn (js ''/tmp/fn'') (js ''/tmp/out.zip'') None ()
             [entry_named ''keep.log'', entry_named ''other.log'', entry_named ''src/index.js'',
              entry_named ''src/debug.log''] []) = Inr run
     \<and> appended run = [entry_named ''keep.log'', entry_named ''src/index.js''])
   \<and> (\<exists>run. fst (zipDir ignores_basic world_bare (js ''/tmp/fn'') (js ''/tmp/out.zip'') None ()
             [entry_named ''keep.log'', entry_named ''other.log''] []) = Inr run
     \<and> data_fn run = None
     \<and> appended run = [entry_named ''keep.log'', entry_named ''other.log''])"
proof -
  have a: "files world_fn (js ''/tmp/fn'') \<noteq> None"
    by (simp add: world_fn_def js_def)
  have "files world_fn (ignore_path (js ''/tmp/fn'')) = Some (RegularFile (js ''*.log'' @ [LF] @ js ''!keep.log''))"
    unfolding posix_join_fn by (simp add: world_fn_def)
  then have b: "fst (getGcloudIgnores world_fn (js ''/tmp/fn'')) = Inr [js ''*.log'', js ''!keep.log'']"
    by (simp add: getGcloudIgnores_regular js_def trim_def isWhiteSpace_def)
  have c: "[js ''*.log'', js ''!keep.log''] \<noteq> []" by simp
  from zipDir_filter [OF a b, of ignores_basic "js ''/tmp/out.zip''" None "()"
      "[entry_named ''keep.log'', entry_named ''other.log'', entry_named ''src/index.js'',
        entry_named ''src/debug.log'']" "[]"] c
  have 1: "\<exists>run. fst (zipDir ignores_basic world_fn (js ''/tmp/fn'') (js ''/tmp/out.zip'') None ()
             [entry_named ''keep.log'', entry_named ''other.log'', entry_named ''src/index.js'',
              entry_named ''src/debug.log''] []) = Inr run
     \<and> appended run = [entry_named ''keep.log'', entry_named ''src/index.js'']"
    by (simp only: basic_filter_example) blast
  have a': "files world_bare (js ''/tmp/fn'') \<noteq> None"
    by (simp add: world_bare_def js_def)
  have "files world_bare (ignore_path (js ''/tmp/fn'')) = None"
    unfolding posix_join_fn by (simp add: world_bare_def js_def)
  then have b': "fst (getGcloudIgnores world_bare (js ''/tmp/fn'')) = Inr []"
    by (simp add: getGcloudIgnores_absent)
  from zipDir_filter [OF a' b', of ignores_basic "js ''/tmp/out.zip''" None "()"
      "[entry_named ''keep.log'', entry_named ''other.log'']" "[]"]
  have 2: "\<exists>run. fst (zipDir ignores_basic world_bare (js ''/tmp/fn'') (js ''/tmp/out.zip'') None ()
             [entry_named ''keep.log'', entry_named ''other.log''] []) = Inr run
     \<and> data_fn run = None
     \<and> appended run = [entry_named ''keep.log'', entry_named ''other.log'']"
    by simp
  from 1 2 show ?thesis by (rule conjI)
qed

section \<open>What \<open>zipDir\<close> does to the file system and to its promise\<close>

lemma ops_since_append [simp]: "ops_since w (w\<lparr>trace := trace w @ ops\<rparr>) = ops"
  by (simp add: ops_since_def)

lemma zipDir_present:
  assumes "files w dirPath \<noteq> None"
  shows "\<exists>run. fst (zipDir ignores w dirPath outputPath opts c0 walk evs) = Inr run
     \<and> ((\<exists>err. fst (getGcloudIgnores w dirPath) = Inl err \<and> settled run = Rejected err)
        \<or> (\<exists>rules. fst (getGcloudIgnores w dirPath) = Inr rules
              \<and> settled run = fst (foldl (on_event opts outputPath) (Pending, c0) evs)))"
proof (cases "files w (ignore_path dirPath)")
  case None
  then show ?thesis
    by (simp add: zipDir_no_ignore_file [OF assms None] getGcloudIgnores_absent)
next
  case (Some nd)
  show ?thesis
  proof (cases "\<exists>s. nd = RegularFile s")
    case True
    then obtain s where "files w (ignore_path dirPath) = Some (RegularFile s)"
      using Some by blast
    then show ?thesis
      by (simp add: zipDir_ignore_file [OF assms] getGcloudIgnores_regular)
  next
    case False
    then have "\<forall>s. nd \<noteq> RegularFile s" by blast
    from zipDir_ignore_file_failing [OF assms Some this, of ignores outputPath opts c0 walk evs]
    show ?thesis by (auto simp: deliver_settled)
  qed
qed

lemma zipDir_ops:
  "ops_since w (snd (zipDir ignores w dirPath outputPath opts c0 walk evs)) \<in>
     {[ExistsSync dirPath],
      [ExistsSync dirPath, CreateWriteStream outputPath, ExistsSync (ignore_path dirPath)],
      [ExistsSync dirPath, CreateWriteStream outputPath, ExistsSync (ignore_path dirPath),
       ReadFileSync (ignore_path dirPath)],
      [ExistsSync dirPath, CreateWriteStream outputPath, ExistsSync (ignore_path dirPath),
       ReadFileSync (ignore_path dirPath), ExistsSync (ignore_path dirPath),
       ReadFileSync (ignore_path dirPath)]}"
proof (cases "files w dirPath")
  case None
  then show ?thesis by (simp add: zipDir_absent_source)
next
  case src: (Some d)
  then have present: "files w dirPath \<noteq> None" by simp
  show ?thesis
  proof (cases "files w (ignore_path dirPath)")
    case None
    then show ?thesis by (simp add: zipDir_no_ignore_file [OF present])
  next
    case (Some nd)
    show ?thesis
    proof (cases "\<exists>s. nd = RegularFile s")
      case True
      then obtain s where "files w (ignore_path dirPath) = Some (RegularFile s)"
        using Some by blast
      then show ?thesis by (simp add: zipDir_ignore_file [OF present])
    next
      case False
      then have "\<forall>s. nd \<noteq> RegularFile s" by blast
      from zipDir_ignore_file_failing [OF present Some this, of ignores outputPath opts c0 walk evs]
      obtain err r where "zipDir ignores w dirPath outputPath opts c0 walk evs =
         (r, w\<lparr>trace := trace w @ [ExistsSync dirPath, CreateWriteStream outputPath,
                                  ExistsSync (ignore_path dirPath), ReadFileSync (ignore_path dirPath)]\<rparr>)"
        by blast
      then show ?thesis by simp
    qed
  qed
qed

lemma getGcloudIgnores_ops:
  "ops_since w (snd (getGcloudIgnores w dir)) \<in>
     {[ExistsSync (ignore_path dir)], [ExistsSync (ignore_path dir), ReadFileSync (ignore_path dir)]}"
proof (cases "files w (ignore_path dir)")
  case None
  then show ?thesis by (simp add: getGcloudIgnores_absent)
next
  case (Some nd)
  show ?thesis
  proof (cases "\<exists>s. nd = RegularFile s")
    case True
    then obtain s where "files w (ignore_path dir) = Some (RegularFile s)"
      using Some by blast
    then show ?thesis by (simp add: getGcloudIgnores_regular)
  next
    case False
    then have "\<forall>s. nd \<noteq> RegularFile s" by blast
    from getGcloudIgnores_failing [OF Some this] show ?thesis by auto
  qed
qed

lemma rules_fn: "fst (getGcloudIgnores world_fn (js ''/tmp/fn'')) = Inr [js ''*.log'', js ''!keep.log'']"
proof -
  have "files world_fn (ignore_path (js ''/tmp/fn''))
          = Some (RegularFile (js ''*.log'' @ [LF] @ js ''!keep.log''))"
    unfolding posix_join_fn by (simp add: world_fn_def)
  then show ?thesis
    by (simp add: getGcloudIgnores_regular js_def trim_def isWhiteSpace_def)
qed

lemma rules_unreadable:
  "fst (getGcloudIgnores world_unreadable (js ''/tmp/fn''))
     = Inl (ErrnoException ''EACCES'' (js ''/tmp/fn/.gcloudignore''))"
proof -
  have "files world_unreadable (ignore_path (js ''/tmp/fn'')) = Some UnreadableFile"
    unfolding posix_join_fn by (simp add: world_unreadable_def)
  then show ?thesis
    by (simp add: getGcloudIgnores_def existsSync_def readFileSync_def posix_join_fn Let_def)
qed

section \<open>A missing source directory\<close>

text \<open>
  C3: when the source directory does not exist, \<open>zipDir\<close> fails with the error
  \<open>Unable to find <dirPath>\<close>, and the only call it has made to the file system is the
  existence check of the source directory: no write stream is created for the
  destination and no file has changed.
\<close>

theorem zipDir_source_missing:
  assumes "files w dirPath = None"
  shows "fst (zipDir ignores w dirPath outputPath opts c0 walk evs)
           = Inl (Error (js ''Unable to find '' @ dirPath))
     \<and> files (snd (zipDir ignores w dirPath outputPath opts c0 walk evs)) = files w
     \<and> ops_since w (snd (zipDir ignores w dirPath outputPath opts c0 walk evs)) = [ExistsSync dirPath]
     \<and> CreateWriteStream outputPath
          \<notin> set (ops_since w (snd (zipDir ignores w dirPath outputPath opts c0 walk evs)))"
  using assms by (simp add: zipDir_absent_source)

theorem zipDir_source_missing_witness:
  "fst (zipDir ignores_basic world_bare (js ''/tmp/missing'') (js ''/tmp/out.zip'') None () [] [])
     = Inl (Error (js ''Unable to find /tmp/missing''))
   \<and> trace (snd (zipDir ignores_basic world_bare (js ''/tmp/missing'') (js ''/tmp/out.zip'') None () [] []))
     = [ExistsSync (js ''/tmp/missing'')]"
proof -
  have "files world_bare (js ''/tmp/missing'') = None"
    by (simp add: world_bare_def js_def)
  from zipDir_source_missing [OF this, of ignores_basic "js ''/tmp/out.zip''" None "()" "[]" "[]"]
  show ?thesis by (simp add: ops_since_def world_bare_def js_def)
qed

section \<open>How failures are delivered\<close>

text \<open>
  C2, as stated: every failure, a missing source directory included, rejects the promise
  that \<open>zipDir\<close> returns. It fails on the code: for a missing source directory the call
  throws before any promise exists.
\<close>

theorem zipDir_missing_source_throws:
  "fst (zipDir ignores_basic world_bare (js ''/tmp/missing'') (js ''/tmp/out.zip'') None () [] [])
     = Inl (Error (js ''Unable to find /tmp/missing''))"
  by (simp add: zipDir_def existsSync_def world_bare_def js_def)

text \<open>
  C2, amended: a missing source directory is reported by an exception thrown by the call
  itself, before a promise exists. When the directory exists the call returns a promise,
  and the other failures reject it: an error while reading the ignore file, and a
  warning or an error event of the archive writer that arrives before any other
  settling event, each with its own error. Nothing is retried: the write stream of the
  destination is created exactly once.
\<close>

theorem zipDir_failure_channels:
  "(files w dirPath = None \<longrightarrow>
      fst (zipDir ignores w dirPath outputPath opts c0 walk evs)
        = Inl (Error (js ''Unable to find '' @ dirPath)))
   \<and> (files w dirPath \<noteq> None \<longrightarrow>
        (\<exists>run. fst (zipDir ignores w dirPath outputPath opts c0 walk evs) = Inr run
           \<and> (\<forall>err. fst (getGcloudIgnores w dirPath) = Inl err \<longrightarrow> settled run = Rejected err)
           \<and> (\<forall>rules pre err post.
                 fst (getGcloudIgnores w dirPath) = Inr rules
                 \<and> (\<forall>e \<in> set pre. \<not> is_terminal e)
                 \<and> (evs = pre @ WarningEvent err # post \<or> evs = pre @ ErrorEvent err # post)
                 \<longrightarrow> settled run = Rejected err))
        \<and> length (filter (\<lambda>opn. opn = CreateWriteStream outputPath)
             (ops_since w (snd (zipDir ignores w dirPath outputPath opts c0 walk evs)))) = 1)"
proof (intro conjI impI)
  assume "files w dirPath = None"
  then show "fst (zipDir ignores w dirPath outputPath opts c0 walk evs)
        = Inl (Error (js ''Unable to find '' @ dirPath))"
    by (simp add: zipDir_absent_source)
next
  assume present: "files w dirPath \<noteq> None"
  from zipDir_present [OF present, of ignores outputPath opts c0 walk evs]
  obtain run where run: "fst (zipDir ignores w dirPath outputPath opts c0 walk evs) = Inr run"
    and cases: "(\<exists>err. fst (getGcloudIgnores w dirPath) = Inl err \<and> settled run = Rejected err)
        \<or> (\<exists>rules. fst (getGcloudIgnores w dirPath) = Inr rules
              \<and> settled run = fst (foldl (on_event opts outputPath) (Pending, c0) evs))"
    by blast
  have a: "\<forall>err. fst (getGcloudIgnores w dirPath) = Inl err \<longrightarrow> settled run = Rejected err"
    using cases by auto
  have b: "\<forall>rules pre err post.
                 fst (getGcloudIgnores w dirPath) = Inr rules
                 \<and> (\<forall>e \<in> set pre. \<not> is_terminal e)
                 \<and> (evs = pre @ WarningEvent err # post \<or> evs = pre @ ErrorEvent err # post)
                 \<longrightarrow> settled run = Rejected err"
  proof (intro allI impI)
    fix rules pre err post
    assume h: "fst (getGcloudIgnores w dirPath) = Inr rules
                 \<and> (\<forall>e \<in> set pre. \<not> is_terminal e)
                 \<and> (evs = pre @ WarningEvent err # post \<or> evs = pre @ ErrorEvent err # post)"
    then have pre: "\<forall>e \<in> set pre. \<not> is_terminal e" by blast
    from h cases have "settled run = fst (foldl (on_event opts outputPath) (Pending, c0) evs)"
      by auto
    moreover from h have "evs = pre @ WarningEvent err # post \<or> evs = pre @ ErrorEvent err # post"
      by blast
    ultimately show "settled run = Rejected err"
      using deliver_warning [OF pre, of opts outputPath c0 err post]
        deliver_error [OF pre, of opts outputPath c0 err post]
      by (elim disjE) (simp_all only:)
  qed
  from run a b
  show "\<exists>run. fst (zipDir ignores w dirPath outputPath opts c0 walk evs) = Inr run
           \<and> (\<forall>err. fst (getGcloudIgnores w dirPath) = Inl err \<longrightarrow> settled run = Rejected err)
           \<and> (\<forall>rules pre err post.
                 fst (getGcloudIgnores w dirPath) = Inr rules
                 \<and> (\<forall>e \<in> set pre. \<not> is_terminal e)
                 \<and> (evs = pre @ WarningEvent err # post \<or> evs = pre @ ErrorEvent err # post)
                 \<longrightarrow> settled run = Rejected err)"
    by blast
next
  assume present: "files w dirPath \<noteq> None"
  have "ops_since w (snd (zipDir ignores w dirPath outputPath opts c0 walk evs)) \<noteq> [ExistsSync dirPath]"
  proof (cases "files w (ignore_path dirPath)")
    case None
    then show ?thesis by (simp add: zipDir_no_ignore_file [OF present])
  next
    case (Some nd)
    show ?thesis
    proof (cases "\<exists>s. nd = RegularFile s")
      case True
      then obtain s where "files w (ignore_path dirPath) = Some (RegularFile s)"
        using Some by blast
      then show ?thesis by (simp add: zipDir_ignore_file [OF present])
    next
      case False
      then have "\<forall>s. nd \<noteq> RegularFile s" by blast
      from zipDir_ignore_file_failing [OF present Some this, of ignores outputPath opts c0 walk evs]
      obtain err r where "zipDir ignores w dirPath outputPath opts c0 walk evs =
         (r, w\<lparr>trace := trace w @ [ExistsSync dirPath, CreateWriteStream outputPath,
                                  ExistsSync (ignore_path dirPath), ReadFileSync (ignore_path dirPath)]\<rparr>)"
        by blast
      then show ?thesis by simp
    qed
  qed
  with zipDir_ops [of w ignores dirPath outputPath opts c0 walk evs]
  show "length (filter (\<lambda>opn. opn = CreateWriteStream outputPath)
             (ops_since w (snd (zipDir ignores w dirPath outputPath opts c0 walk evs)))) = 1"
    by auto
qed

theorem zipDir_failure_channels_witness:
  "fst (zipDir ignores_basic world_bare (js ''/tmp/missing'') (js ''/tmp/out.zip'') None () [] [])
     = Inl (Error (js ''Unable to find /tmp/missing''))
   \<and> (\<exists>run. fst (zipDir ignores_basic world_unreadable (js ''/tmp/fn'') (js ''/tmp/out.zip'') None () []
                 [FinishEvent]) = Inr run
         \<and> settled run = Rejected (ErrnoException ''EACCES'' (js ''/tmp/fn/.gcloudignore'')))
   \<and> (\<exists>run. fst (zipDir ignores_basic world_fn (js ''/tmp/fn'') (js ''/tmp/out.zip'') None () []
                 [EntryEvent (entry_named ''keep.log''), WarningEvent (Error (js ''stat failed'')),
                  FinishEvent]) = Inr run
         \<and> settled run = Rejected (Error (js ''stat failed'')))"
proof -
  have missing: "files world_bare (js ''/tmp/missing'') = None"
    by (simp add: world_bare_def js_def)
  have present_u: "files world_unreadable (js ''/tmp/fn'') \<noteq> None"
    by (simp add: world_unreadable_def js_def)
  have present: "files world_fn (js ''/tmp/fn'') \<noteq> None"
    by (simp add: world_fn_def js_def)
  have pre: "\<forall>e \<in> set [EntryEvent (entry_named ''keep.log'')]. \<not> is_terminal e" by simp
  have 1: "fst (zipDir ignores_basic world_bare (js ''/tmp/missing'') (js ''/tmp/out.zip'') None () [] [])
     = Inl (Error (js ''Unable to find /tmp/missing''))"
    using zipDir_failure_channels [of world_bare "js ''/tmp/missing''" ignores_basic
        "js ''/tmp/out.zip''" None "()" "[]" "[]"] missing
    by (simp add: js_def)
  have 2: "\<exists>run. fst (zipDir ignores_basic world_unreadable (js ''/tmp/fn'') (js ''/tmp/out.zip'') None () []
                 [FinishEvent]) = Inr run
         \<and> settled run = Rejected (ErrnoException ''EACCES'' (js ''/tmp/fn/.gcloudignore''))"
    using zipDir_failure_channels [of world_unreadable "js ''/tmp/fn''" ignores_basic
        "js ''/tmp/out.zip''" None "()" "[]" "[FinishEvent]"] present_u rules_unreadable
    by blast
  have 3: "\<exists>run. fst (zipDir ignores_basic world_fn (js ''/tmp/fn'') (js ''/tmp/out.zip'') None () []
                 [EntryEvent (entry_named ''keep.log''), WarningEvent (Error (js ''stat failed'')),
                  FinishEvent]) = Inr run
         \<and> settled run = Rejected (Error (js ''stat failed''))"
  proof -
    from zipDir_failure_channels [of world_fn "js ''/tmp/fn''" ignores_basic
        "js ''/tmp/out.zip''" None "()" "[]"
        "[EntryEvent (entry_named ''keep.log''), WarningEvent (Error (js ''stat failed'')), FinishEvent]"]
      present
    obtain run where run: "fst (zipDir ignores_basic world_fn (js ''/tmp/fn'') (js ''/tmp/out.zip'') None () []
                 [EntryEvent (entry_named ''keep.log''), WarningEvent (Error (js ''stat failed'')),
                  FinishEvent]) = Inr run"
      and rej: "\<forall>rules pre err post.
                 fst (getGcloudIgnores world_fn (js ''/tmp/fn'')) = Inr rules
                 \<and> (\<forall>e \<in> set pre. \<not> is_terminal e)
                 \<and> ([EntryEvent (entry_named ''keep.log''), WarningEvent (Error (js ''stat failed'')),
                      FinishEvent] = pre @ WarningEvent err # post
                    \<or> [EntryEvent (entry_named ''keep.log''), WarningEvent (Error (js ''stat failed'')),
                      FinishEvent] = pre @ ErrorEvent err # post)
                 \<longrightarrow> settled run = Rejected err"
      by blast
    from rej [rule_format, of "[js ''*.log'', js ''!keep.log'']" "[EntryEvent (entry_named ''keep.log'')]"
        "Error (js ''stat failed'')" "[FinishEvent]"] rules_fn pre
    have "settled run = Rejected (Error (js ''stat failed''))" by simp
    with run show ?thesis by blast
  qed
  from 1 2 3 show ?thesis by blast
qed

section \<open>Reads of the ignore file\<close>

text \<open>
  C4, as stated: the ignore file is read at most once for each call of \<open>zipDir\<close>. It
  fails on the code: with an ignore file present, \<open>zipDir\<close> loads the rules twice.
\<close>

theorem zipDir_reads_ignore_file_twice:
  "length (filter is_read
     (trace (snd (zipDir ignores_basic world_fn (js ''/tmp/fn'') (js ''/tmp/out.zip'') None () [] []))))
   = 2"
proof -
  have present: "files world_fn (js ''/tmp/fn'') \<noteq> None"
    by (simp add: world_fn_def js_def)
  have "files world_fn (ignore_path (js ''/tmp/fn''))
          = Some (RegularFile (js ''*.log'' @ [LF] @ js ''!keep.log''))"
    unfolding posix_join_fn by (simp add: world_fn_def)
  then have "trace (snd (zipDir ignores_basic world_fn (js ''/tmp/fn'') (js ''/tmp/out.zip'') None () [] []))
      = trace world_fn @ [ExistsSync (js ''/tmp/fn''), CreateWriteStream (js ''/tmp/out.zip''),
          ExistsSync (ignore_path (js ''/tmp/fn'')), ReadFileSync (ignore_path (js ''/tmp/fn'')),
          ExistsSync (ignore_path (js ''/tmp/fn'')), ReadFileSync (ignore_path (js ''/tmp/fn''))]"
    by (simp add: zipDir_ignore_file [OF present])
  then show ?thesis by (simp add: world_fn_def)
qed

text \<open>
  C4, amended: each call of \<open>getGcloudIgnores\<close> reads at most one file at most once, the
  ignore file at the root of the directory. \<open>zipDir\<close> reads no other file either, reads
  the ignore file at most twice, and exactly twice whenever the source directory exists
  and the ignore file is a readable file.
\<close>

theorem ignore_file_reads:
  "length (filter is_read (ops_since w (snd (getGcloudIgnores w dir)))) \<le> 1
   \<and> (\<forall>p. ReadFileSync p \<in> set (ops_since w (snd (getGcloudIgnores w dir))) \<longrightarrow> p = ignore_path dir)
   \<and> length (filter is_read
        (ops_since w (snd (zipDir ignores w dirPath outputPath opts c0 walk evs)))) \<le> 2
   \<and> (\<forall>p. ReadFileSync p \<in> set (ops_since w (snd (zipDir ignores w dirPath outputPath opts c0 walk evs)))
          \<longrightarrow> p = ignore_path dirPath)
   \<and> (\<forall>s. files w dirPath \<noteq> None \<and> files w (ignore_path dirPath) = Some (RegularFile s)
          \<longrightarrow> length (filter is_read
                 (ops_since w (snd (zipDir ignores w dirPath outputPath opts c0 walk evs)))) = 2)"
proof (intro conjI allI impI)
  show "length (filter is_read (ops_since w (snd (getGcloudIgnores w dir)))) \<le> 1"
    using getGcloudIgnores_ops [of w dir] by auto
next
  fix p assume "ReadFileSync p \<in> set (ops_since w (snd (getGcloudIgnores w dir)))"
  then show "p = ignore_path dir"
    using getGcloudIgnores_ops [of w dir] by auto
next
  show "length (filter is_read
        (ops_since w (snd (zipDir ignores w dirPath outputPath opts c0 walk evs)))) \<le> 2"
    using zipDir_ops [of w ignores dirPath outputPath opts c0 walk evs] by auto
next
  fix p assume "ReadFileSync p \<in> set (ops_since w (snd (zipDir ignores w dirPath outputPath opts c0 walk evs)))"
  then show "p = ignore_path dirPath"
    using zipDir_ops [of w ignores dirPath outputPath opts c0 walk evs] by auto
next
  fix s assume "files w dirPath \<noteq> None \<and> files w (ignore_path dirPath) = Some (RegularFile s)"
  then show "length (filter is_read
                 (ops_since w (snd (zipDir ignores w dirPath outputPath opts c0 walk evs)))) = 2"
    by (simp add: zipDir_ignore_file)
qed

theorem ignore_file_reads_witness:
  "length (filter is_read (ops_since world_fn (snd (getGcloudIgnores world_fn (js ''/tmp/fn''))))) \<le> 1
   \<and> length (filter is_read (ops_since world_fn
        (snd (zipDir ignores_basic world_fn (js ''/tmp/fn'') (js ''/tmp/out.zip'') None () [] [])))) = 2"
proof -
  have "files world_fn (js ''/tmp/fn'') \<noteq> None
        \<and> files world_fn (ignore_path (js ''/tmp/fn''))
          = Some (RegularFile (js ''*.log'' @ [LF] @ js ''!keep.log''))"
    unfolding posix_join_fn by (simp add: world_fn_def js_def)
  with ignore_file_reads [of world_fn "js ''/tmp/fn''" ignores_basic "js ''/tmp/fn''"
      "js ''/tmp/out.zip''" None "()" "[]" "[]"]
  show ?thesis by blast
qed

section \<open>Success and the \<open>finish\<close> event\<close>

text \<open>
  C7: at every moment of a run, that is after any number \<open>k\<close> of the events, a promise
  that is resolved is resolved with the destination path, and the output stream has
  emitted \<open>finish\<close> among the events delivered so far. And when \<open>finish\<close> is the first
  settling event of a call whose directory exists and whose rules load, the promise is
  resolved with the destination path.
\<close>

theorem zipDir_resolves_after_finish:
  "(\<forall>k run v. fst (zipDir ignores w dirPath outputPath opts c0 walk (take k evs)) = Inr run
        \<and> settled run = Resolved v
        \<longrightarrow> v = outputPath \<and> FinishEvent \<in> set (take k evs))
   \<and> (\<forall>rules pre post.
         files w dirPath \<noteq> None \<and> fst (getGcloudIgnores w dirPath) = Inr rules
         \<and> evs = pre @ FinishEvent # post \<and> (\<forall>e \<in> set pre. \<not> is_terminal e)
         \<longrightarrow> (\<exists>run. fst (zipDir ignores w dirPath outputPath opts c0 walk evs) = Inr run
                \<and> settled run = Resolved outputPath))"
proof (rule conjI; intro allI impI)
  fix k run v
  assume h: "fst (zipDir ignores w dirPath outputPath opts c0 walk (take k evs)) = Inr run
        \<and> settled run = Resolved v"
  have present: "files w dirPath \<noteq> None"
  proof
    assume "files w dirPath = None"
    with h show False by (simp add: zipDir_absent_source)
  qed
  from zipDir_present [OF present, of ignores outputPath opts c0 walk "take k evs"] h
  have "fst (foldl (on_event opts outputPath) (Pending, c0) (take k evs)) = Resolved v"
    by auto
  then show "v = outputPath \<and> FinishEvent \<in> set (take k evs)"
    by (rule deliver_resolved)
next
  fix rules pre post
  assume h: "files w dirPath \<noteq> None \<and> fst (getGcloudIgnores w dirPath) = Inr rules
         \<and> evs = pre @ FinishEvent # post \<and> (\<forall>e \<in> set pre. \<not> is_terminal e)"
  then have present: "files w dirPath \<noteq> None" and pre: "\<forall>e \<in> set pre. \<not> is_terminal e"
    and evs: "evs = pre @ FinishEvent # post" by blast+
  from zipDir_present [OF present, of ignores outputPath opts c0 walk evs] h
  obtain run where run: "fst (zipDir ignores w dirPath outputPath opts c0 walk evs) = Inr run"
    and "settled run = fst (foldl (on_event opts outputPath) (Pending, c0) evs)"
    by auto
  then have "settled run = Resolved outputPath"
    unfolding evs using deliver_finish [OF pre, of opts outputPath c0 post] by (simp only:)
  with run show "\<exists>run. fst (zipDir ignores w dirPath outputPath opts c0 walk evs) = Inr run
                \<and> settled run = Resolved outputPath" by blast
qed

theorem zipDir_resolves_after_finish_witness:
  "\<exists>run. fst (zipDir ignores_basic world_fn (js ''/tmp/fn'') (js ''/tmp/out.zip'') None () []
             [EntryEvent (entry_named ''keep.log''), FinishEvent]) = Inr run
     \<and> settled run = Resolved (js ''/tmp/out.zip'')
     \<and> FinishEvent \<in> set [EntryEvent (entry_named ''keep.log''), FinishEvent]"
proof -
  let ?evs = "[EntryEvent (entry_named ''keep.log''), FinishEvent]"
  note inst = zipDir_resolves_after_finish [of ignores_basic world_fn "js ''/tmp/fn''"
      "js ''/tmp/out.zip''" None "()" "[]" "[EntryEvent (entry_named ''keep.log''), FinishEvent]"]
  have present: "files world_fn (js ''/tmp/fn'') \<noteq> None"
    by (simp add: world_fn_def js_def)
  have pre: "\<forall>e \<in> set [EntryEvent (entry_named ''keep.log'')]. \<not> is_terminal e" by simp
  have split: "?evs = [EntryEvent (entry_named ''keep.log'')] @ FinishEvent # []" by simp
  from inst have "files world_fn (js ''/tmp/fn'') \<noteq> None
         \<and> fst (getGcloudIgnores world_fn (js ''/tmp/fn'')) = Inr [js ''*.log'', js ''!keep.log'']
         \<and> ?evs = [EntryEvent (entry_named ''keep.log'')] @ FinishEvent # []
         \<and> (\<forall>e \<in> set [EntryEvent (entry_named ''keep.log'')]. \<not> is_terminal e)
         \<longrightarrow> (\<exists>run. fst (zipDir ignores_basic world_fn (js ''/tmp/fn'') (js ''/tmp/out.zip'') None () [] ?evs) = Inr run
                \<and> settled run = Resolved (js ''/tmp/out.zip''))"
    by blast
  with present rules_fn pre split
  obtain run where run: "fst (zipDir ignores_basic world_fn (js ''/tmp/fn'') (js ''/tmp/out.zip'') None () [] ?evs) = Inr run"
    and res: "settled run = Resolved (js ''/tmp/out.zip'')"
    by blast
  from inst have "fst (zipDir ignores_basic world_fn (js ''/tmp/fn'') (js ''/tmp/out.zip'') None () []
                  (take 2 ?evs)) = Inr run \<and> settled run = Resolved (js ''/tmp/out.zip'')
      \<longrightarrow> js ''/tmp/out.zip'' = js ''/tmp/out.zip'' \<and> FinishEvent \<in> set (take 2 ?evs)"
    by blast
  with run res have "FinishEvent \<in> set ?evs" by simp
  with run res show ?thesis by blast
qed

section \<open>Warnings\<close>

text \<open>
  C8: a warning event is treated as an error event is. Replacing every warning of a run
  by an error with the same payload changes nothing in the outcome, and a warning that
  arrives while the promise is pending rejects it with the emitted error.
\<close>

theorem zipDir_warning_is_error:
  "zipDir ignores w dirPath outputPath opts c0 walk (map warnings_as_errors evs)
     = zipDir ignores w dirPath outputPath opts c0 walk evs
   \<and> (\<forall>rules pre err post.
         files w dirPath \<noteq> None \<and> fst (getGcloudIgnores w dirPath) = Inr rules
         \<and> evs = pre @ WarningEvent err # post \<and> (\<forall>e \<in> set pre. \<not> is_terminal e)
         \<longrightarrow> (\<exists>run. fst (zipDir ignores w dirPath outputPath opts c0 walk evs) = Inr run
                \<and> settled run = Rejected err))"
proof (rule conjI; (intro allI impI)?)
  show "zipDir ignores w dirPath outputPath opts c0 walk (map warnings_as_errors evs)
     = zipDir ignores w dirPath outputPath opts c0 walk evs"
    unfolding zipDir_def deliver_warnings_as_errors by (rule refl)
next
  fix rules pre err post
  assume h: "files w dirPath \<noteq> None \<and> fst (getGcloudIgnores w dirPath) = Inr rules
         \<and> evs = pre @ WarningEvent err # post \<and> (\<forall>e \<in> set pre. \<not> is_terminal e)"
  then have present: "files w dirPath \<noteq> None" and pre: "\<forall>e \<in> set pre. \<not> is_terminal e"
    and evs: "evs = pre @ WarningEvent err # post" by blast+
  from zipDir_present [OF present, of ignores outputPath opts c0 walk evs] h
  obtain run where run: "fst (zipDir ignores w dirPath outputPath opts c0 walk evs) = Inr run"
    and "settled run = fst (foldl (on_event opts outputPath) (Pending, c0) evs)"
    by auto
  then have "settled run = Rejected err"
    unfolding evs using deliver_warning [OF pre, of opts outputPath c0 err post] by (simp only:)
  with run show "\<exists>run. fst (zipDir ignores w dirPath outputPath opts c0 walk evs) = Inr run
                \<and> settled run = Rejected err" by blast
qed

theorem zipDir_warning_is_error_witness:
  "zipDir ignores_basic world_fn (js ''/tmp/fn'') (js ''/tmp/out.zip'') None () []
     [EntryEvent (entry_named ''keep.log''), ErrorEvent (Error (js ''stat failed'')), FinishEvent]
   = zipDir ignores_basic world_fn (js ''/tmp/fn'') (js ''/tmp/out.zip'') None () []
     [EntryEvent (entry_named ''keep.log''), WarningEvent (Error (js ''stat failed'')), FinishEvent]
   \<and> (\<exists>run. fst (zipDir ignores_basic world_fn (js ''/tmp/fn'') (js ''/tmp/out.zip'') None () []
                 [EntryEvent (entry_named ''keep.log''), WarningEvent (Error (js ''stat failed'')),
                  FinishEvent]) = Inr run
         \<and> settled run = Rejected (Error (js ''stat failed'')))"
proof -
  let ?evs = "[EntryEvent (entry_named ''keep.log''), WarningEvent (Error (js ''stat failed'')), FinishEvent]"
  note inst = zipDir_warning_is_error [of ignores_basic world_fn "js ''/tmp/fn''"
      "js ''/tmp/out.zip''" None "()" "[]"
      "[EntryEvent (entry_named ''keep.log''), WarningEvent (Error (js ''stat failed'')), FinishEvent]"]
  have present: "files world_fn (js ''/tmp/fn'') \<noteq> None"
    by (simp add: world_fn_def js_def)
  have pre: "\<forall>e \<in> set [EntryEvent (entry_named ''keep.log'')]. \<not> is_terminal e" by simp
  have split: "?evs = [EntryEvent (entry_named ''keep.log'')] @ WarningEvent (Error (js ''stat failed'')) # [FinishEvent]"
    by simp
  from inst have eq: "zipDir ignores_basic world_fn (js ''/tmp/fn'') (js ''/tmp/out.zip'') None () []
     (map warnings_as_errors ?evs)
   = zipDir ignores_basic world_fn (js ''/tmp/fn'') (js ''/tmp/out.zip'') None () [] ?evs"
    by blast
  from inst have "files world_fn (js ''/tmp/fn'') \<noteq> None
         \<and> fst (getGcloudIgnores world_fn (js ''/tmp/fn'')) = Inr [js ''*.log'', js ''!keep.log'']
         \<and> ?evs = [EntryEvent (entry_named ''keep.log'')] @ WarningEvent (Error (js ''stat failed'')) # [FinishEvent]
         \<and> (\<forall>e \<in> set [EntryEvent (entry_named ''keep.log'')]. \<not> is_terminal e)
         \<longrightarrow> (\<exists>run. fst (zipDir ignores_basic world_fn (js ''/tmp/fn'') (js ''/tmp/out.zip'') None () [] ?evs) = Inr run
                \<and> settled run = Rejected (Error (js ''stat failed'')))"
    by blast
  with present rules_fn pre split
  have "\<exists>run. fst (zipDir ignores_basic world_fn (js ''/tmp/fn'') (js ''/tmp/out.zip'') None () [] ?evs) = Inr run
                \<and> settled run = Rejected (Error (js ''stat failed''))"
    by blast
  with eq show ?thesis by simp
qed

section \<open>Blank lines of the ignore file\<close>

lemma split_newline_length: "length (split_newline s) = Suc (count_list s LF)"
proof (induction s rule: split_newline.induct)
  case 1
  show ?case by simp
next
  case (2 c cs)
  show ?case
  proof (cases "c = LF")
    case True
    with 2 show ?thesis by simp
  next
    case nlf: False
    show ?thesis
    proof (cases "c = CR \<and> cs \<noteq> [] \<and> hd cs = LF")
      case True
      then obtain rest where cs: "cs = LF # rest" by (cases cs) auto
      with True nlf 2 show ?thesis by simp
    next
      case False
      with nlf 2 have "length (split_newline cs) = Suc (count_list cs LF)" by simp
      with False nlf show ?thesis
        by (cases "split_newline cs") auto
    qed
  qed
qed

lemma split_newline_chars: "p \<in> set (split_newline s) \<Longrightarrow> set p \<subseteq> set s"
proof (induction s arbitrary: p rule: split_newline.induct)
  case 1
  then show ?case by simp
next
  case (2 c cs)
  show ?case
  proof (cases "c = LF")
    case True
    with 2 show ?thesis by auto
  next
    case nlf: False
    show ?thesis
    proof (cases "c = CR \<and> cs \<noteq> [] \<and> hd cs = LF")
      case True
      then obtain rest where cs: "cs = LF # rest" by (cases cs) auto
      from True nlf "2.prems" have "p = [] \<or> p \<in> set (split_newline (tl cs))" by simp
      then show ?thesis
      proof
        assume "p = []" then show ?thesis by simp
      next
        assume "p \<in> set (split_newline (tl cs))"
        with "2.IH"(2) [OF nlf True] have "set p \<subseteq> set (tl cs)" by simp
        then show ?thesis using cs by auto
      qed
    next
      case False
      note IH = "2.IH"(3) [OF nlf False]
      show ?thesis
      proof (cases "split_newline cs")
        case Nil
        then show ?thesis by (simp add: split_newline_nonempty)
      next
        case (Cons q qs)
        with False nlf "2.prems" have "p = c # q \<or> p \<in> set qs" by auto
        then show ?thesis
        proof
          assume "p = c # q"
          moreover have "set q \<subseteq> set cs" using IH [of q] Cons by simp
          ultimately show ?thesis by auto
        next
          assume "p \<in> set qs"
          then have "set p \<subseteq> set cs" using IH [of p] Cons by simp
          then show ?thesis by auto
        qed
      qed
    qed
  qed
qed

lemma trim_whitespace:
  assumes "\<forall>c \<in> set s. isWhiteSpace c"
  shows "trim s = []"
proof -
  from assms have "dropWhile isWhiteSpace s = []"
    by (rule dropWhile_eq_Nil_conv [THEN iffD2])
  then show ?thesis by (simp only: trim_def rev.simps dropWhile.simps)
qed

lemma blank_rules:
  assumes "\<forall>c \<in> set s. isWhiteSpace c"
  shows "map trim (split_newline s) = replicate (Suc (count_list s LF)) []"
proof -
  have "\<forall>r \<in> set (map trim (split_newline s)). r = []"
  proof
    fix r assume "r \<in> set (map trim (split_newline s))"
    then obtain p where p: "p \<in> set (split_newline s)" and r: "r = trim p" by auto
    from split_newline_chars [OF p] assms have "\<forall>c \<in> set p. isWhiteSpace c" by blast
    with r show "r = []" by (simp add: trim_whitespace)
  qed
  then have "replicate (length (map trim (split_newline s))) [] = map trim (split_newline s)"
    by (rule replicate_length_same)
  then show ?thesis by (simp add: split_newline_length)
qed

text \<open>
  C9: the rules loaded from an ignore file are never empty: there is one rule for each
  line, blank lines included, so one more than the number of line feeds. When the file
  holds only white space every rule is the empty string, and \<open>zipDir\<close> still builds a
  filter from these rules.
\<close>

theorem blank_lines_kept:
  assumes "files w (ignore_path dirPath) = Some (RegularFile s)"
  shows "\<exists>rules. fst (getGcloudIgnores w dirPath) = Inr rules
     \<and> rules \<noteq> []
     \<and> length rules = Suc (count_list s LF)
     \<and> ((\<forall>c \<in> set s. isWhiteSpace c) \<longrightarrow> rules = replicate (Suc (count_list s LF)) [])
     \<and> (files w dirPath \<noteq> None \<longrightarrow>
          (\<exists>run. fst (zipDir ignores w dirPath outputPath opts c0 walk evs) = Inr run
             \<and> data_fn run = Some (gIgnoreF ignores rules)))"
proof -
  let ?rules = "map trim (split_newline s)"
  have 1: "fst (getGcloudIgnores w dirPath) = Inr ?rules"
    using assms by (simp add: getGcloudIgnores_regular)
  have 2: "?rules \<noteq> []"
    by (simp add: split_newline_nonempty)
  have 3: "length ?rules = Suc (count_list s LF)"
    by (simp add: split_newline_length)
  have 4: "(\<forall>c \<in> set s. isWhiteSpace c) \<longrightarrow> ?rules = replicate (Suc (count_list s LF)) []"
    using blank_rules by blast
  have 5: "files w dirPath \<noteq> None \<longrightarrow>
          (\<exists>run. fst (zipDir ignores w dirPath outputPath opts c0 walk evs) = Inr run
             \<and> data_fn run = Some (gIgnoreF ignores ?rules))"
    using assms by (simp add: zipDir_ignore_file)
  from 1 2 3 4 5 show ?thesis by blast
qed

theorem blank_lines_kept_witness:
  "fst (getGcloudIgnores world_blank (js ''/tmp/fn'')) = Inr [[], [], []]
   \<and> (\<exists>run. fst (zipDir ignores_basic world_blank (js ''/tmp/fn'') (js ''/tmp/out.zip'') None () [] [])
               = Inr run
         \<and> data_fn run = Some (gIgnoreF ignores_basic [[], [], []]))"
proof -
  have present: "files world_blank (js ''/tmp/fn'') \<noteq> None"
    by (simp add: world_blank_def js_def)
  have ignore_file: "files world_blank (ignore_path (js ''/tmp/fn'')) = Some (RegularFile [0x20, LF, 0x09, CR, LF])"
    unfolding posix_join_fn by (simp add: world_blank_def)
  have ws: "\<forall>c \<in> set [0x20, LF, 0x09, CR, LF]. isWhiteSpace c"
    by (simp add: isWhiteSpace_def)
  have n: "replicate (Suc (count_list [0x20, LF, 0x09, CR, LF :: 16 word] LF)) ([] :: js_string) = [[], [], []]"
    by simp
  from blank_lines_kept [OF ignore_file, of ignores_basic "js ''/tmp/out.zip''" None "()" "[]" "[]"]
    present ws n
  show ?thesis by auto
qed

section \<open>Formatting an entry\<close>

lemma upper_unknown: "toUpperCase unicode_upper (js ''unknown'') = js ''UNKNOWN''"
  by (simp add: toUpperCase_def js_def ascii_upper_def)

lemma toUpperCase_nonempty:
  assumes "\<forall>s. s \<noteq> [] \<longrightarrow> unicode_upper s \<noteq> []" and "s \<noteq> []"
  shows "toUpperCase unicode_upper s \<noteq> []"
  using assms by (simp add: toUpperCase_def)

lemma string_or_nonempty: "d \<noteq> [] \<Longrightarrow> string_or x d \<noteq> []"
  by (simp add: string_or_def split: option.splits)

lemma char_at_0_hd: "s \<noteq> [] \<Longrightarrow> char_at_0 s = [hd s]"
  by (cases s) (simp_all add: char_at_0_def)

text \<open>
  The layout and the defaults: \<open>formatEntry\<close> returns \<open>[T] (mode) name => sourcePath\<close>,
  where \<open>T\<close> is the first code unit of the upper-cased type. A missing mode is rendered
  as \<open>000\<close>, a missing source path as \<open>unknown\<close>, a missing type as \<open>U\<close>; a field that is
  present and truthy is rendered as it is. For an entry with only a name the result is
  \<open>[U] (000) name => unknown\<close>. The hypothesis is on the runtime's case tables:
  upper-casing a non-empty string gives a non-empty string.
\<close>

lemma formatEntry_layout:
  assumes "\<forall>s. s \<noteq> [] \<longrightarrow> unicode_upper s \<noteq> []"
  shows "\<exists>t m p.
       formatEntry unicode_upper runtime_toString entry
         = js ''['' @ [t] @ js ''] ('' @ m @ js '') '' @ name entry @ js '' => '' @ p
     \<and> (mode entry = None \<longrightarrow> m = js ''000'')
     \<and> (\<forall>n. mode entry = Some n \<and> \<not> falsy_number n
            \<longrightarrow> m = number_to_string runtime_toString n)
     \<and> (\<forall>i. mode entry = Some (Integer i) \<and> i \<noteq> 0 \<and> \<bar>i\<bar> < 2 ^ 53
            \<longrightarrow> m = integer_to_string i)
     \<and> (sourcePath entry = None \<longrightarrow> p = js ''unknown'')
     \<and> (\<forall>sp. sourcePath entry = Some sp \<and> sp \<noteq> [] \<longrightarrow> p = sp)
     \<and> (type entry = None \<longrightarrow> t = 0x55)
     \<and> (\<forall>ty. type entry = Some ty \<and> ty \<noteq> [] \<longrightarrow> t = hd (toUpperCase unicode_upper ty))
     \<and> (\<forall>ty. type entry = Some ty \<and> ty \<noteq> [] \<and> list_all (\<lambda>c. c < 0x80) ty
            \<longrightarrow> t = ascii_upper (hd ty))
     \<and> (mode entry = None \<and> sourcePath entry = None \<and> type entry = None
            \<longrightarrow> formatEntry unicode_upper runtime_toString entry
                  = js ''[U] (000) '' @ name entry @ js '' => unknown'')"
proof -
  let ?ty = "string_or (type entry) (js ''unknown'')"
  let ?t = "hd (toUpperCase unicode_upper ?ty)"
  let ?m = "mode_or runtime_toString (mode entry) (js ''000'')"
  let ?p = "string_or (sourcePath entry) (js ''unknown'')"
  have "?ty \<noteq> []" by (rule string_or_nonempty) (simp add: js_def)
  then have up: "toUpperCase unicode_upper ?ty \<noteq> []"
    using assms by (rule toUpperCase_nonempty [rotated])
  have eq: "formatEntry unicode_upper runtime_toString entry
         = js ''['' @ [?t] @ js ''] ('' @ ?m @ js '') '' @ name entry @ js '' => '' @ ?p"
    by (simp add: formatEntry_def Let_def char_at_0_hd [OF up])
  have m1: "mode entry = None \<longrightarrow> ?m = js ''000''"
    by (simp add: mode_or_def)
  have m2: "\<forall>n. mode entry = Some n \<and> \<not> falsy_number n
            \<longrightarrow> ?m = number_to_string runtime_toString n"
    by (simp add: mode_or_def)
  have m3: "\<forall>i. mode entry = Some (Integer i) \<and> i \<noteq> 0 \<and> \<bar>i\<bar> < 2 ^ 53
            \<longrightarrow> ?m = integer_to_string i"
    by (simp add: mode_or_def number_to_string_def)
  have p1: "sourcePath entry = None \<longrightarrow> ?p = js ''unknown''"
    by (simp add: string_or_def)
  have p2: "\<forall>sp. sourcePath entry = Some sp \<and> sp \<noteq> [] \<longrightarrow> ?p = sp"
    by (simp add: string_or_def)
  have t1: "type entry = None \<longrightarrow> ?t = 0x55"
    by (simp add: string_or_def upper_unknown) (simp add: js_def)
  have t2: "\<forall>ty. type entry = Some ty \<and> ty \<noteq> [] \<longrightarrow> ?t = hd (toUpperCase unicode_upper ty)"
    by (simp add: string_or_def)
  have t3: "\<forall>ty. type entry = Some ty \<and> ty \<noteq> [] \<and> list_all (\<lambda>c. c < 0x80) ty
            \<longrightarrow> ?t = ascii_upper (hd ty)"
    by (auto simp: string_or_def toUpperCase_def hd_map)
  have bare: "mode entry = None \<and> sourcePath entry = None \<and> type entry = None
            \<longrightarrow> formatEntry unicode_upper runtime_toString entry
                  = js ''[U] (000) '' @ name entry @ js '' => unknown''"
    by (simp add: formatEntry_def Let_def string_or_def mode_or_def upper_unknown)
       (simp add: js_def char_at_0_def)
  show ?thesis
    by (rule exI [of _ ?t], rule exI [of _ ?m], rule exI [of _ ?p])
      (intro conjI eq m1 m2 m3 p1 p2 t1 t2 t3 bare)
qed

lemma formatEntry_layout_example:
  "formatEntry (\<lambda>s. s) no_toString entry_full = js ''[F] (420) index.js => /tmp/fn/index.js''
   \<and> formatEntry (\<lambda>s. s) no_toString entry_bare = js ''[U] (000) index.js => unknown''"
proof -
  have up: "\<forall>s :: js_string. s \<noteq> [] \<longrightarrow> (\<lambda>s. s) s \<noteq> []" by simp
  have n420: "integer_to_string 420 = js ''420''"
    by (simp add: integer_to_string_def nat_to_string.simps js_def)
  have full: "formatEntry (\<lambda>s. s) no_toString entry_full = js ''[F] (420) index.js => /tmp/fn/index.js''"
    using formatEntry_layout [of "\<lambda>s. s" no_toString entry_full, OF up]
    by (elim exE conjE, simp add: entry_full_def n420) (simp add: js_def ascii_upper_def)
  have bare: "formatEntry (\<lambda>s. s) no_toString entry_bare = js ''[U] (000) index.js => unknown''"
    using formatEntry_layout [of "\<lambda>s. s" no_toString entry_bare, OF up]
    by (elim exE conjE) (simp add: entry_bare_def js_def)
  from full bare show ?thesis by (rule conjI)
qed

text \<open>
  C6: the claim, like the comment above \<open>formatEntry\<close>, says that the result is a
  single-line string for every entry. The code copies the name into the result as it
  is: for the entry whose name is \<open>a\<close>, a line feed, \<open>b\<close>, and which has no other field,
  it returns \<open>[U] (000) a\<close>, a line feed, \<open>b => unknown\<close>, a string of two lines.
\<close>

theorem formatEntry_two_lines:
  "formatEntry unicode_upper runtime_toString entry_two_lines
     = js ''[U] (000) a'' @ [LF] @ js ''b => unknown''
   \<and> LF \<in> set (formatEntry unicode_upper runtime_toString entry_two_lines)"
proof -
  have "formatEntry unicode_upper runtime_toString entry_two_lines
     = js ''[U] (000) a'' @ [LF] @ js ''b => unknown''"
    by (simp add: formatEntry_def Let_def entry_two_lines_def string_or_def mode_or_def
        upper_unknown)
       (simp add: js_def char_at_0_def)
  then show ?thesis by simp
qed

text \<open>
  C10: a mode that is present and 0 is rendered as \<open>000\<close>, with the same result as a
  missing mode; a source path or a type that is present and the empty string is
  rendered as the default of a missing one. The mode \<open>NaN\<close>, falsy as well, is rendered
  as \<open>000\<close> too.
\<close>

theorem formatEntry_falsy_fields:
  "formatEntry unicode_upper runtime_toString (entry\<lparr>mode := Some (Integer 0)\<rparr>)
       = formatEntry unicode_upper runtime_toString (entry\<lparr>mode := None\<rparr>)
   \<and> formatEntry unicode_upper runtime_toString (entry\<lparr>sourcePath := Some []\<rparr>)
       = formatEntry unicode_upper runtime_toString (entry\<lparr>sourcePath := None\<rparr>)
   \<and> formatEntry unicode_upper runtime_toString (entry\<lparr>type := Some []\<rparr>)
       = formatEntry unicode_upper runtime_toString (entry\<lparr>type := None\<rparr>)
   \<and> (\<exists>t p. formatEntry unicode_upper runtime_toString (entry\<lparr>mode := Some (Integer 0)\<rparr>)
         = js ''['' @ t @ js ''] (000) '' @ name entry @ js '' => '' @ p)
   \<and> (\<exists>t m. formatEntry unicode_upper runtime_toString (entry\<lparr>sourcePath := Some []\<rparr>)
         = js ''['' @ t @ js ''] ('' @ m @ js '') '' @ name entry @ js '' => unknown'')
   \<and> (\<exists>m p. formatEntry unicode_upper runtime_toString (entry\<lparr>type := Some []\<rparr>)
         = js ''[U] ('' @ m @ js '') '' @ name entry @ js '' => '' @ p)
   \<and> formatEntry unicode_upper runtime_toString (entry\<lparr>mode := Some NaN\<rparr>)
       = formatEntry unicode_upper runtime_toString (entry\<lparr>mode := None\<rparr>)"
proof (intro conjI)
  show "formatEntry unicode_upper runtime_toString (entry\<lparr>mode := Some (Integer 0)\<rparr>)
       = formatEntry unicode_upper runtime_toString (entry\<lparr>mode := None\<rparr>)"
    by (simp add: formatEntry_def mode_or_def)
  show "formatEntry unicode_upper runtime_toString (entry\<lparr>sourcePath := Some []\<rparr>)
       = formatEntry unicode_upper runtime_toString (entry\<lparr>sourcePath := None\<rparr>)"
    by (simp add: formatEntry_def string_or_def)
  show "formatEntry unicode_upper runtime_toString (entry\<lparr>type := Some []\<rparr>)
       = formatEntry unicode_upper runtime_toString (entry\<lparr>type := None\<rparr>)"
    by (simp add: formatEntry_def string_or_def)
  show "\<exists>t p. formatEntry unicode_upper runtime_toString (entry\<lparr>mode := Some (Integer 0)\<rparr>)
         = js ''['' @ t @ js ''] (000) '' @ name entry @ js '' => '' @ p"
    by (rule exI [of _ "char_at_0 (toUpperCase unicode_upper (string_or (type entry) (js ''unknown'')))"],
        rule exI [of _ "string_or (sourcePath entry) (js ''unknown'')"])
      (simp add: formatEntry_def mode_or_def Let_def js_def)
  show "\<exists>t m. formatEntry unicode_upper runtime_toString (entry\<lparr>sourcePath := Some []\<rparr>)
         = js ''['' @ t @ js ''] ('' @ m @ js '') '' @ name entry @ js '' => unknown''"
    by (rule exI [of _ "char_at_0 (toUpperCase unicode_upper (string_or (type entry) (js ''unknown'')))"],
        rule exI [of _ "mode_or runtime_toString (mode entry) (js ''000'')"])
      (simp add: formatEntry_def string_or_def Let_def js_def)
  show "\<exists>m p. formatEntry unicode_upper runtime_toString (entry\<lparr>type := Some []\<rparr>)
         = js ''[U] ('' @ m @ js '') '' @ name entry @ js '' => '' @ p"
    by (rule exI [of _ "mode_or runtime_toString (mode entry) (js ''000'')"],
        rule exI [of _ "string_or (sourcePath entry) (js ''unknown'')"])
      (simp add: formatEntry_def string_or_def Let_def toUpperCase_def ascii_upper_def
        char_at_0_def js_def)
  show "formatEntry unicode_upper runtime_toString (entry\<lparr>mode := Some NaN\<rparr>)
       = formatEntry unicode_upper runtime_toString (entry\<lparr>mode := None\<rparr>)"
    by (simp add: formatEntry_def mode_or_def)
qed

theorem formatEntry_falsy_fields_witness:
  "formatEntry (\<lambda>s. s) no_toString entry_zero = js ''[U] (000) index.js => unknown''"
proof -
  have "formatEntry (\<lambda>s. s) no_toString entry_zero
          = formatEntry (\<lambda>s. s) no_toString
              (entry_bare\<lparr>type := Some []\<rparr>\<lparr>sourcePath := Some []\<rparr>\<lparr>mode := Some (Integer 0)\<rparr>)"
    by (simp add: entry_zero_def entry_bare_def)
  also have "\<dots> = formatEntry (\<lambda>s. s) no_toString
                     (entry_bare\<lparr>type := Some []\<rparr>\<lparr>sourcePath := Some []\<rparr>\<lparr>mode := None\<rparr>)"
    using formatEntry_falsy_fields [of "\<lambda>s. s" no_toString
        "entry_bare\<lparr>type := Some []\<rparr>\<lparr>sourcePath := Some []\<rparr>"]
    by (elim conjE)
  also have "\<dots> = formatEntry (\<lambda>s. s) no_toString (entry_bare\<lparr>type := Some []\<rparr>\<lparr>sourcePath := Some []\<rparr>)"
    by (simp add: entry_bare_def)
  also have "\<dots> = formatEntry (\<lambda>s. s) no_toString (entry_bare\<lparr>type := Some []\<rparr>\<lparr>sourcePath := None\<rparr>)"
    using formatEntry_falsy_fields [of "\<lambda>s. s" no_toString "entry_bare\<lparr>type := Some []\<rparr>"]
    by (elim conjE)
  also have "\<dots> = formatEntry (\<lambda>s. s) no_toString (entry_bare\<lparr>type := Some []\<rparr>)"
    by (simp add: entry_bare_def)
  also have "\<dots> = formatEntry (\<lambda>s. s) no_toString (entry_bare\<lparr>type := None\<rparr>)"
    using formatEntry_falsy_fields [of "\<lambda>s. s" no_toString entry_bare]
    by (elim conjE)
  also have "\<dots> = js ''[U] (000) index.js => unknown''"
    by (simp add: entry_bare_def formatEntry_def string_or_def mode_or_def toUpperCase_def
        ascii_upper_def char_at_0_def js_def)
  finally show ?thesis .
qed

end
